theory Spec2Isabelle
  imports Main "HOL-Library.Sublist"
begin

chapter \<open>The programs\<close>

section \<open>JavaScript strings and values\<close>

text \<open>
  A JavaScript string is a finite sequence of UTF-16 code units. The model keeps the code
  units as natural numbers, so that every string of the program has a representation;
  \<open>lit ''abc''\<close> is the string of an ASCII literal of the source.
\<close>

type_synonym jsstring = "nat list"

abbreviation (input) lit :: "string \<Rightarrow> jsstring" where
  "lit s \<equiv> map of_char s"

abbreviation (input) DQUOTE :: nat where "DQUOTE \<equiv> 34"
abbreviation (input) COMMA :: nat where "COMMA \<equiv> 44"
abbreviation (input) LF :: nat where "LF \<equiv> 10"
abbreviation (input) CR :: nat where "CR \<equiv> 13"
abbreviation (input) HYPHEN :: nat where "HYPHEN \<equiv> 45"

text \<open>
  \<open>Number.prototype.toString\<close> on an integer: the decimal digits, most significant first,
  with a leading minus sign for a negative number. (JavaScript prints integers this way
  below \<open>10^21\<close>; trial indices, timestamps and heights are far below.)
\<close>

fun dec :: "nat \<Rightarrow> jsstring" where
  "dec n = (if n < 10 then [48 + n] else dec (n div 10) @ [48 + n mod 10])"

declare dec.simps [simp del]

definition num_str :: "int \<Rightarrow> jsstring" where
  "num_str n = (if n < 0 then HYPHEN # dec (nat (- n)) else dec (nat n))"

text \<open>
  The values that cross the program's boundaries: JSON data (what \<open>JSON.parse\<close> returns
  and what the SDK resolves with), \<open>undefined\<close>, and \<open>Error\<close> objects (what is thrown),
  given by their \<open>name\<close> and \<open>message\<close>. Numbers are the integer-valued ones; an object is
  the list of its own properties, the first binding of a key being the one that counts.
\<close>

datatype jsval =
    JUndefined
  | JNull
  | JBool bool
  | JNum int
  | JStr jsstring
  | JArr "jsval list"
  | JObj "(jsstring \<times> jsval) list"
  | JError jsstring jsstring

text \<open>Truthiness (\<open>ToBoolean\<close>), as \<open>!\<close>, \<open>||\<close>, \<open>&&\<close> and \<open>?:\<close> use it.\<close>

fun truthy :: "jsval \<Rightarrow> bool" where
  "truthy JUndefined = False"
| "truthy JNull = False"
| "truthy (JBool b) = b"
| "truthy (JNum n) = (n \<noteq> 0)"
| "truthy (JStr s) = (s \<noteq> [])"
| "truthy (JArr xs) = True"
| "truthy (JObj kvs) = True"
| "truthy (JError n m) = True"

fun nullish :: "jsval \<Rightarrow> bool" where
  "nullish JUndefined = True"
| "nullish JNull = True"
| "nullish v = False"

text \<open>\<open>a || b\<close>, \<open>a && b\<close> and \<open>a ?? b\<close>.\<close>

definition js_or :: "jsval \<Rightarrow> jsval \<Rightarrow> jsval" where
  "js_or a b = (if truthy a then a else b)"

definition js_and :: "jsval \<Rightarrow> jsval \<Rightarrow> jsval" where
  "js_and a b = (if truthy a then b else a)"

definition nullish_or :: "jsval \<Rightarrow> jsval \<Rightarrow> jsval" where
  "nullish_or a b = (if nullish a then b else a)"

text \<open>
  \<open>v.k\<close> on a value that is neither \<open>null\<close> nor \<open>undefined\<close>, for the property names the
  program reads (\<open>message\<close>, \<open>value\<close>, \<open>memo\<close>, \<open>txhash\<close>, \<open>txHash\<close>, \<open>code\<close>, \<open>height\<close>,
  \<open>gasWanted\<close>, \<open>gasUsed\<close>, \<open>timestamp\<close>): primitives and arrays have none of them.
  \<open>opt_prop\<close> is the optional chaining \<open>v?.k\<close>.
\<close>

fun get_prop :: "jsval \<Rightarrow> jsstring \<Rightarrow> jsval" where
  "get_prop (JObj kvs) k = (case map_of kvs k of Some v \<Rightarrow> v | None \<Rightarrow> JUndefined)"
| "get_prop (JError n m) k =
     (if k = lit ''message'' then JStr m else if k = lit ''name'' then JStr n else JUndefined)"
| "get_prop v k = JUndefined"

definition opt_prop :: "jsval \<Rightarrow> jsstring \<Rightarrow> jsval" where
  "opt_prop v k = (if nullish v then JUndefined else get_prop v k)"

text \<open>\<open>Array.prototype.join\<close> on strings.\<close>

fun join :: "jsstring \<Rightarrow> jsstring list \<Rightarrow> jsstring" where
  "join sep [] = []"
| "join sep [x] = x"
| "join sep (x # y # ys) = x @ sep @ join sep (y # ys)"

text \<open>
  \<open>String(v)\<close>. An array joins its elements with commas, \<open>null\<close> and \<open>undefined\<close> elements
  giving the empty string; a plain object gives \<open>[object Object]\<close>; an \<open>Error\<close> gives
  its name and message.
\<close>

fun ToString :: "jsval \<Rightarrow> jsstring" where
  "ToString JUndefined = lit ''undefined''"
| "ToString JNull = lit ''null''"
| "ToString (JBool b) = (if b then lit ''true'' else lit ''false'')"
| "ToString (JNum n) = num_str n"
| "ToString (JStr s) = s"
| "ToString (JArr xs) = join [COMMA] (map (\<lambda>x. if nullish x then [] else ToString x) xs)"
| "ToString (JObj kvs) = lit ''[object Object]''"
| "ToString (JError n m) =
     (if n = [] then m else if m = [] then n else n @ lit '': '' @ m)"

section \<open>CSV escaping (\<open>esc\<close>)\<close>

text \<open>
  \<^verbatim>\<open>
  function esc(v) {
    const s = String(v ?? "");
    if (/[",\n]/.test(s)) return `"${s.replaceAll('"', '""')}"`;
    return s;
  }
  \<close>
\<close>

definition replaceAll_dquote :: "jsstring \<Rightarrow> jsstring" where
  "replaceAll_dquote s = concat (map (\<lambda>c. if c = DQUOTE then [DQUOTE, DQUOTE] else [c]) s)"

definition esc :: "jsval \<Rightarrow> jsstring" where
  "esc v =
     (let s = ToString (nullish_or v (JStr []))
      in if list_ex (\<lambda>c. c = DQUOTE \<or> c = COMMA \<or> c = LF) s
         then [DQUOTE] @ replaceAll_dquote s @ [DQUOTE]
         else s)"

subsection \<open>The reader's side: a field parser in the style of RFC 4180\<close>

text \<open>
  The repository writes the CSV and never reads it, so the parser of the round-trip
  property is written here from RFC 4180: a field that starts with a double quote runs to
  the first double quote that is not doubled, a doubled one standing for one; any other
  field is the longest run of text, which a comma, a double quote, a carriage return or a
  line feed ends. The parser returns the field and the input that follows it.
\<close>

fun rfc4180_escaped :: "jsstring \<Rightarrow> (jsstring \<times> jsstring) option" where
  "rfc4180_escaped [] = None"
| "rfc4180_escaped [c] = (if c = DQUOTE then Some ([], []) else None)"
| "rfc4180_escaped (c # d # ds) =
     (if c = DQUOTE then
        (if d = DQUOTE
         then map_option (\<lambda>(f, r). (DQUOTE # f, r)) (rfc4180_escaped ds)
         else Some ([], d # ds))
      else map_option (\<lambda>(f, r). (c # f, r)) (rfc4180_escaped (d # ds)))"

definition textdata :: "nat \<Rightarrow> bool" where
  "textdata c = (c \<noteq> COMMA \<and> c \<noteq> DQUOTE \<and> c \<noteq> CR \<and> c \<noteq> LF)"

fun rfc4180_field :: "jsstring \<Rightarrow> (jsstring \<times> jsstring) option" where
  "rfc4180_field [] = Some ([], [])"
| "rfc4180_field (c # cs) =
     (if c = DQUOTE then rfc4180_escaped cs
      else Some (takeWhile textdata (c # cs), dropWhile textdata (c # cs)))"

text \<open>What may follow a field in a record: the end of the input, a comma or a line break.\<close>

fun field_end :: "jsstring \<Rightarrow> bool" where
  "field_end [] = True"
| "field_end (c # cs) = (c = COMMA \<or> c = LF \<or> c = CR)"

section \<open>The environment of a run\<close>

text \<open>
  What a program receives from outside is given by an environment, so that a run is a
  function of it. A call of the network either resolves with a value or rejects with the
  value thrown.
\<close>

datatype outcome = Resolved jsval | Rejected jsval

text \<open>
  What a run does to the outside, in order: lines on the console (by their leading words),
  the uncaught error printed on the error stream, writes to the output file, submissions
  of a transaction (\<open>Broadcast i a\<close> is attempt \<open>a\<close> of trial \<open>i\<close>; a program that submits
  once issues \<open>Broadcast 1 1\<close>), timer waits in milliseconds, and read-only contract queries.
\<close>

datatype event =
    ConsoleLog jsstring
  | ConsoleError
  | WriteFile jsstring
  | AppendFile jsstring
  | Broadcast nat nat
  | Sleep nat
  | Query nat

text \<open>
  The variables \<open>CONTRACT\<close> and \<open>MNEMONIC\<close> of \<open>process.env\<close> (\<open>None\<close> when unset), and
  what \<open>PrivateKey.fromMnemonic(MNEMONIC).toAddress().toBech32()\<close> gives: the address,
  or the value thrown.
\<close>

record process_env =
  CONTRACT :: "jsstring option"
  MNEMONIC :: "jsstring option"
  fromMnemonic :: "jsval + jsstring"

text \<open>\<open>!X\<close> for a variable of \<open>process.env\<close>: unset or empty.\<close>

definition missing :: "jsstring option \<Rightarrow> bool" where
  "missing v = (v = None \<or> v = Some [])"

text \<open>The text of a variable of \<open>process.env\<close> that is set.\<close>

definition env_text :: "jsstring option \<Rightarrow> jsstring" where
  "env_text v = (case v of Some s \<Rightarrow> s | None \<Rightarrow> [])"

section \<open>Failure classification and backoff\<close>

text \<open>
  \<^verbatim>\<open>/sequence|account sequence|incorrect/i.test(errMsg)\<close>: the pattern is an alternation
  of literals and carries the flag \<open>i\<close> only, so \<open>test\<close> starts at index 0 each time and
  keeps no state. A literal matches at a position when each of its characters equals
  the subject's after both are canonicalised; for the ASCII letters of this pattern the
  canonical form is the upper-case letter, and no code unit above 127 canonicalises to
  an ASCII letter.
\<close>

definition canonicalize :: "nat \<Rightarrow> nat" where
  "canonicalize c = (if 97 \<le> c \<and> c \<le> 122 then c - 32 else c)"

fun matches_at :: "jsstring \<Rightarrow> jsstring \<Rightarrow> bool" where
  "matches_at [] s = True"
| "matches_at (p # ps) [] = False"
| "matches_at (p # ps) (c # cs) = (canonicalize p = canonicalize c \<and> matches_at ps cs)"

fun regex_test :: "jsstring list \<Rightarrow> jsstring \<Rightarrow> bool" where
  "regex_test alts [] = list_ex (\<lambda>p. matches_at p []) alts"
| "regex_test alts (c # cs) = (list_ex (\<lambda>p. matches_at p (c # cs)) alts \<or> regex_test alts cs)"

definition sequence_pattern :: "jsstring list" where
  "sequence_pattern = [lit ''sequence'', lit ''account sequence'', lit ''incorrect'']"

text \<open>The two kinds of failure of the specification, read off the pattern, and their delays.\<close>

datatype error_kind = TransientSequenceError | OtherTransientError

definition classify :: "jsstring \<Rightarrow> error_kind" where
  "classify msg =
     (if regex_test sequence_pattern msg then TransientSequenceError else OtherTransientError)"

fun backoff_ms :: "error_kind \<Rightarrow> nat \<Rightarrow> nat" where
  "backoff_ms TransientSequenceError a = 1200 * a"
| "backoff_ms OtherTransientError a = 400 * a"

section \<open>The timing experiment\<close>

text \<open>
  The environment of the experiment: \<open>N\<close> is the number of indices \<open>i \<ge> 1\<close> with
  \<open>i <= Number(process.env.N ?? "100")\<close>, \<open>SLEEP_MS\<close> the inter-trial delay (0 when the
  test \<open>SLEEP_MS > 0\<close> fails); \<open>Date_now i\<close> is what \<open>Date.now()\<close> returns in trial \<open>i\<close>;
  \<open>broadcast i a\<close> is how attempt \<open>a\<close> of trial \<open>i\<close> ends and \<open>broadcast_took i a\<close> how long
  it takes on the monotonic clock; \<open>sleep_took i a\<close> is how long the wait after that attempt
  takes and \<open>pause_took i\<close> how long the inter-trial delay takes. \<open>toFixed3 d\<close> is the text
  of \<open>nsToMs(d).toFixed(3)\<close>; the properties hold whatever this rendering is, and the
  example environments take \<open>toFixed3_exact\<close>, which computes it in double precision.
  Writing to the file and to the console is taken to succeed, and time to pass only while
  the program awaits a submission or a timer.
\<close>

record experiment_env = process_env +
  N :: nat
  SLEEP_MS :: nat
  Date_now :: "nat \<Rightarrow> int"
  broadcast :: "nat \<Rightarrow> nat \<Rightarrow> outcome"
  broadcast_took :: "nat \<Rightarrow> nat \<Rightarrow> nat"
  sleep_took :: "nat \<Rightarrow> nat \<Rightarrow> nat"
  pause_took :: "nat \<Rightarrow> nat"
  toFixed3 :: "nat \<Rightarrow> jsstring"

text \<open>\<^verbatim>\<open>const value = `pi-exp-${Date.now()}-${i}`;\<close>\<close>

definition payload_value :: "int \<Rightarrow> nat \<Rightarrow> jsstring" where
  "payload_value now i = lit ''pi-exp-'' @ num_str now @ lit ''-'' @ dec i"

text \<open>
  The retry loop of a trial, from attempt \<open>attempt\<close> on, with the loop's variables \<open>res\<close>
  and \<open>errMsg\<close> and the monotonic clock; it returns what it did, the two variables and
  the clock at its end.
  \<^verbatim>\<open>
  for (let attempt = 1; attempt <= 3; attempt++) {
    try {
      res = await broadcaster.broadcast({...});
      errMsg = "";
      break;
    } catch (e) {
      errMsg = (e && (e.message || String(e))) || "unknown error";
      if (/sequence|account sequence|incorrect/i.test(errMsg)) {
        await sleep(1200 * attempt);
      } else {
        await sleep(400 * attempt);
      }
    }
  }
  \<close>
\<close>

definition caught_message :: "jsval \<Rightarrow> jsval" where
  "caught_message e =
     js_or (js_and e (js_or (get_prop e (lit ''message'')) (JStr (ToString e))))
           (JStr (lit ''unknown error''))"

function retry ::
  "'a experiment_env_scheme \<Rightarrow> nat \<Rightarrow> nat \<Rightarrow> jsval \<times> jsval \<times> nat
     \<Rightarrow> event list \<times> jsval \<times> jsval \<times> nat" where
  "retry env i attempt (res, errMsg, clock) =
     (if attempt \<le> 3 then
        (case broadcast env i attempt of
           Resolved r \<Rightarrow>
             ([Broadcast i attempt], r, JStr [], clock + broadcast_took env i attempt)
         | Rejected e \<Rightarrow>
             (case retry env i (attempt + 1)
                     (res, caught_message e,
                      clock + broadcast_took env i attempt + sleep_took env i attempt) of
                (evs, out) \<Rightarrow>
                  (Broadcast i attempt
                   # Sleep (if regex_test sequence_pattern (ToString (caught_message e))
                            then 1200 * attempt else 400 * attempt)
                   # evs, out)))
      else ([], res, errMsg, clock))"
  by pat_completeness auto
termination
  by (relation "measure (\<lambda>(env, i, attempt, s). 4 - attempt)") auto

declare retry.simps [simp del]

text \<open>The header of the file and the row of a trial, in the header's order.\<close>

definition header :: "jsstring list" where
  "header = [lit ''i'', lit ''value'', lit ''broadcast_ms'', lit ''txhash'', lit ''code'',
             lit ''height'', lit ''gasWanted'', lit ''gasUsed'', lit ''timestamp'', lit ''error'']"

definition make_row ::
  "'a experiment_env_scheme \<Rightarrow> nat \<Rightarrow> jsstring \<Rightarrow> nat \<Rightarrow> jsval \<Rightarrow> jsval \<Rightarrow> jsval" where
  "make_row env i val broadcastNs res errMsg =
     JObj [(lit ''i'', JNum (int i)),
           (lit ''value'', JStr val),
           (lit ''broadcast_ms'', JStr (toFixed3 env broadcastNs)),
           (lit ''txhash'',
              js_or (js_or (opt_prop res (lit ''txhash'')) (opt_prop res (lit ''txHash''))) (JStr [])),
           (lit ''code'', nullish_or (opt_prop res (lit ''code'')) (JStr [])),
           (lit ''height'', nullish_or (opt_prop res (lit ''height'')) (JStr [])),
           (lit ''gasWanted'', nullish_or (opt_prop res (lit ''gasWanted'')) (JStr [])),
           (lit ''gasUsed'', nullish_or (opt_prop res (lit ''gasUsed'')) (JStr [])),
           (lit ''timestamp'', nullish_or (opt_prop res (lit ''timestamp'')) (JStr [])),
           (lit ''error'', if truthy res then JStr [] else errMsg)]"

definition row_line :: "jsval \<Rightarrow> jsstring" where
  "row_line row = join [COMMA] (map (\<lambda>k. esc (get_prop row k)) header) @ [LF]"

text \<open>
  One pass of the trial loop's body, entered with the monotonic clock at \<open>clock\<close>: it
  returns what the trial did and the clock at its end. \<open>t0\<close> and \<open>t1\<close> are the two
  readings of \<open>nowNs()\<close>, before and after the retry loop.
  \<^verbatim>\<open>
  const value = `pi-exp-${Date.now()}-${i}`;
  ...
  const t0 = nowNs();
  let res = null;
  let errMsg = "";
  for (let attempt = 1; attempt <= 3; attempt++) { ... }
  const t1 = nowNs();
  const broadcastMs = nsToMs(t1 - t0);
  ...
  const line = header.map((k) => esc(row[k])).join(",") + "\n";
  fs.appendFileSync(OUT, line, "utf8");
  if (res) { console.log(`[${i}/${N}] ok ...`); } else { console.log(`[${i}/${N}] ERROR ...`); }
  if (SLEEP_MS > 0) await sleep(SLEEP_MS);
  \<close>
\<close>

definition trial :: "'a experiment_env_scheme \<Rightarrow> nat \<Rightarrow> nat \<Rightarrow> event list \<times> nat" where
  "trial env i clock =
     (let val = payload_value (Date_now env i) i;
          t0 = clock
      in case retry env i 1 (JNull, JStr [], clock) of
           (evs, res, errMsg, t1) \<Rightarrow>
             (let broadcastNs = t1 - t0;
                  row = make_row env i val broadcastNs res errMsg;
                  line = row_line row
              in (evs
                  @ [AppendFile line, ConsoleLog (if truthy res then lit ''ok'' else lit ''ERROR'')]
                  @ (if SLEEP_MS env > 0 then [Sleep (SLEEP_MS env)] else []),
                  t1 + (if SLEEP_MS env > 0 then pause_took env i else 0))))"

text \<open>\<^verbatim>\<open>for (let i = 1; i <= N; i++) { ... }\<close>\<close>

function trials :: "'a experiment_env_scheme \<Rightarrow> nat \<Rightarrow> nat \<Rightarrow> event list" where
  "trials env i clock =
     (if i \<le> N env then
        (case trial env i clock of (evs, clock') \<Rightarrow> evs @ trials env (i + 1) clock')
      else [])"
  by pat_completeness auto
termination
  by (relation "measure (\<lambda>(env, i, clock). N env + 1 - i)") auto

declare trials.simps [simp del]

text \<open>
  The whole program: the module's check of its configuration, whose \<open>throw\<close> nothing
  catches; then \<open>main\<close>, whose rejection the handler at the end prints before it exits
  with status 1. The result is what the run did and the exit status.
\<close>

definition header_line :: jsstring where
  "header_line = join [COMMA] header @ [LF]"

definition experiment_main :: "'a experiment_env_scheme \<Rightarrow> event list \<times> nat" where
  "experiment_main env =
     (if missing (CONTRACT env) \<or> missing (MNEMONIC env) then ([ConsoleError], 1)
      else case fromMnemonic env of
             Inl e \<Rightarrow> ([ConsoleError], 1)
           | Inr address \<Rightarrow>
               ([ConsoleLog (lit ''injectiveAddress:''), ConsoleLog (lit ''contract:''),
                 ConsoleLog (lit ''N=''), WriteFile header_line]
                @ trials env 1 0
                @ [ConsoleLog (lit ''wrote:'')], 0))"

text \<open>
  The output file after a run, or after the part of a run that happened before an
  interruption: \<open>writeFileSync\<close> replaces the content, \<open>appendFileSync\<close> adds to it
  and creates the file when there is none.
\<close>

fun file_step :: "jsstring option \<Rightarrow> event \<Rightarrow> jsstring option" where
  "file_step f (WriteFile c) = Some c"
| "file_step f (AppendFile c) = Some ((case f of None \<Rightarrow> [] | Some old \<Rightarrow> old) @ c)"
| "file_step f e = f"

definition file_after :: "jsstring option \<Rightarrow> event list \<Rightarrow> jsstring option" where
  "file_after f evs = foldl file_step f evs"

section \<open>The broadcast worker (\<open>send_set_value.js\<close>)\<close>

text \<open>
  The worker's environment: the text on its standard input, what \<open>JSON.parse\<close> makes of
  a text (the value, or the \<open>SyntaxError\<close> thrown), how the one call of
  \<open>broadcaster.broadcast\<close> ends and how long it takes.
\<close>

record worker_env = process_env +
  stdin :: jsstring
  JSON_parse :: "jsstring \<Rightarrow> jsval + jsval"
  submit :: outcome
  submit_took :: nat

text \<open>\<open>String.prototype.trim\<close>: white space and line terminators go, at both ends.\<close>

definition is_space :: "nat \<Rightarrow> bool" where
  "is_space c =
     (c \<in> set [9, 10, 11, 12, 13, 32, 160, 5760, 8192, 8193, 8194, 8195, 8196, 8197, 8198,
                8199, 8200, 8201, 8202, 8232, 8233, 8239, 8287, 12288, 65279])"

definition trim :: "jsstring \<Rightarrow> jsstring" where
  "trim s = rev (dropWhile is_space (rev (dropWhile is_space s)))"

text \<open>
  \<^verbatim>\<open>
  async function readStdin() {
    const chunks = [];
    for await (const c of process.stdin) chunks.push(c);
    const s = Buffer.concat(chunks).toString("utf-8").trim();
    if (!s) throw new Error("stdin is empty (expected JSON)");
    return JSON.parse(s);
  }
  \<close>
  A function that may throw returns \<open>Inl\<close> of the value thrown.
\<close>

definition readStdin :: "'a worker_env_scheme \<Rightarrow> jsval + jsval" where
  "readStdin env =
     (let s = trim (stdin env)
      in if s = [] then Inl (JError (lit ''Error'') (lit ''stdin is empty (expected JSON)''))
         else JSON_parse env s)"

text \<open>
  The document the worker writes on its standard output: \<open>{ok: true, txhash, ...}\<close> or
  \<open>{ok: false, error}\<close>. The field \<open>broadcast_ns\<close> is the difference \<open>t1 - t0\<close> of the
  two readings of the clock, of which \<open>broadcast_ms\<close> is the rendering in milliseconds.
\<close>

datatype document =
    Success (txhash: jsval) (broadcast_ns: nat) (height: jsval) (code: jsval)
            (gasWanted: jsval) (gasUsed: jsval) (timestamp: jsval)
            (sender: jsstring) (contract: jsstring) (value_len: nat)
  | Failure (error: jsval)

fun ok :: "document \<Rightarrow> bool" where
  "ok (Success h b ht c gw gu ts sd ct vl) = True"
| "ok (Failure e) = False"

text \<open>The \<open>TypeError\<close> of reading property \<open>k\<close> of \<open>null\<close> or \<open>undefined\<close>.\<close>

definition TypeError_read :: "jsval \<Rightarrow> jsstring \<Rightarrow> jsval" where
  "TypeError_read v k =
     JError (lit ''TypeError'')
       (lit ''Cannot read properties of '' @ ToString v @ lit '' (reading '' @ [39] @ k @ [39]
        @ lit '')'')"

text \<open>
  \<open>main\<close> of the worker: \<open>Inl\<close> of the value it rejects with, or \<open>Inr\<close> of the document it
  has written. The request it submits (the value, and the memo read from \<open>input.memo\<close>) is
  not part of the result: how the submission ends is given by the environment.
\<close>

definition send_set_value_main :: "'a worker_env_scheme \<Rightarrow> jsval + document" where
  "send_set_value_main env =
     (case readStdin env of
        Inl e \<Rightarrow> Inl e
      | Inr input \<Rightarrow>
          if nullish input then Inl (TypeError_read input (lit ''value''))
          else
            (case get_prop input (lit ''value'') of
               JStr val \<Rightarrow>
                 if length val = 0
                 then Inl (JError (lit ''Error'') (lit ''input.value must be non-empty string''))
                 else
                   (case fromMnemonic env of
                      Inl e \<Rightarrow> Inl e
                    | Inr address \<Rightarrow>
                        (case submit env of
                           Rejected e \<Rightarrow> Inl e
                         | Resolved res \<Rightarrow>
                             if nullish res then Inl (TypeError_read res (lit ''txhash''))
                             else Inr (Success
                               (js_or (js_or (get_prop res (lit ''txhash''))
                                             (get_prop res (lit ''txHash''))) (JStr []))
                               (submit_took env)
                               (nullish_or (get_prop res (lit ''height'')) JNull)
                               (nullish_or (get_prop res (lit ''code'')) JNull)
                               (nullish_or (get_prop res (lit ''gasWanted'')) JNull)
                               (nullish_or (get_prop res (lit ''gasUsed'')) JNull)
                               (nullish_or (get_prop res (lit ''timestamp'')) JNull)
                               address
                               (env_text (CONTRACT env))
                               (length val))))
             | _ \<Rightarrow> Inl (JError (lit ''Error'') (lit ''input.value must be non-empty string''))))"

text \<open>
  The process: the module's own check throws before \<open>main\<close> is called, and nothing
  catches it; a rejection of \<open>main\<close> is caught by
  \<^verbatim>\<open>
  main().catch((e) => {
    const err = { ok: false, error: e?.message ?? String(e) };
    process.stdout.write(JSON.stringify(err));
    process.exit(1);
  });
  \<close>
\<close>

record process_result =
  stdout :: "document list"
  exit_status :: nat

definition send_set_value :: "'a worker_env_scheme \<Rightarrow> process_result" where
  "send_set_value env =
     (if missing (CONTRACT env) \<or> missing (MNEMONIC env)
      then \<lparr>stdout = [], exit_status = 1\<rparr>
      else case send_set_value_main env of
             Inr out \<Rightarrow> \<lparr>stdout = [out], exit_status = 0\<rparr>
           | Inl e \<Rightarrow>
               \<lparr>stdout = [Failure (nullish_or (opt_prop e (lit ''message'')) (JStr (ToString e)))],
                exit_status = 1\<rparr>)"

section \<open>Submitting once and polling for confirmation\<close>

text \<open>
  The script that sets a new value once and then polls the contract until it reads the
  value back. Its environment: \<open>RPC\<close>, the value of \<open>Date.now()\<close> when the module is loaded, how the
  one submission ends, and how the \<open>k\<close>-th call of \<open>queryValue\<close> ends (counted from 0).
\<close>

record confirm_env = process_env +
  RPC :: "jsstring option"
  loaded_at :: int
  send :: outcome
  queryValue :: "nat \<Rightarrow> outcome"

text \<open>\<^verbatim>\<open>const newValue = `hello-from-pi-${Date.now()}`;\<close>\<close>

definition newValue :: "'a confirm_env_scheme \<Rightarrow> jsstring" where
  "newValue env = lit ''hello-from-pi-'' @ num_str (loaded_at env)"

text \<open>
  How the polling ends: with the line \<open>CONFIRMED:\<close> and a return, with the line
  \<open>Not confirmed yet.\<close> after the loop, or with the value a query has thrown.
\<close>

datatype poll_result = Confirmed | NotConfirmed | Threw jsval

text \<open>
  \<^verbatim>\<open>
  for (let i = 0; i < 45; i++) {
    const v = await queryValue();
    if (v?.value === newValue) {
      console.log("CONFIRMED:", v);
      return;
    }
    console.log("waiting... current:", v);
    await sleep(2000);
  }
  console.log("Not confirmed yet. Run: node query.js");
  \<close>
\<close>

function poll :: "'a confirm_env_scheme \<Rightarrow> nat \<Rightarrow> event list \<times> poll_result" where
  "poll env i =
     (if i < 45 then
        (case queryValue env i of
           Rejected e \<Rightarrow> ([Query i], Threw e)
         | Resolved v \<Rightarrow>
             if opt_prop v (lit ''value'') = JStr (newValue env)
             then ([Query i, ConsoleLog (lit ''CONFIRMED:'')], Confirmed)
             else (case poll env (i + 1) of
                     (evs, r) \<Rightarrow>
                       (Query i # ConsoleLog (lit ''waiting... current:'') # Sleep 2000 # evs, r)))
      else ([ConsoleLog (lit ''Not confirmed yet. Run: node query.js'')], NotConfirmed))"
  by pat_completeness auto
termination
  by (relation "measure (\<lambda>(env, i). 45 - i)") auto

declare poll.simps [simp del]

definition exec_set_value :: "'a confirm_env_scheme \<Rightarrow> event list \<times> nat" where
  "exec_set_value env =
     (if missing (RPC env) \<or> missing (CONTRACT env) \<or> missing (MNEMONIC env)
      then ([ConsoleError], 1)
      else case fromMnemonic env of
             Inl e \<Rightarrow> ([ConsoleError], 1)
           | Inr address \<Rightarrow>
               (case send env of
                  Rejected e \<Rightarrow>
                    ([ConsoleLog (lit ''injectiveAddress:''), ConsoleLog (lit ''contract:''),
                      ConsoleLog (lit ''set_value:''), Broadcast 1 1, ConsoleError], 1)
                | Resolved txHash \<Rightarrow>
                    (case poll env 0 of
                       (evs, r) \<Rightarrow>
                         ([ConsoleLog (lit ''injectiveAddress:''), ConsoleLog (lit ''contract:''),
                           ConsoleLog (lit ''set_value:''), Broadcast 1 1,
                           ConsoleLog (lit ''txHash:'')]
                          @ evs
                          @ (case r of Threw e \<Rightarrow> [ConsoleError] | _ \<Rightarrow> []),
                          (case r of Threw e \<Rightarrow> 1 | _ \<Rightarrow> 0)))))"

section \<open>Notions used in the statements\<close>

text \<open>The text that the classification of a caught value \<open>e\<close> looks at: \<open>String(errMsg)\<close>.\<close>

definition failure_text :: "jsval \<Rightarrow> jsstring" where
  "failure_text e = ToString (caught_message e)"

fun is_Broadcast :: "event \<Rightarrow> bool" where
  "is_Broadcast (Broadcast i a) = True"
| "is_Broadcast e = False"

fun is_AppendFile :: "event \<Rightarrow> bool" where
  "is_AppendFile (AppendFile c) = True"
| "is_AppendFile e = False"

fun is_WriteFile :: "event \<Rightarrow> bool" where
  "is_WriteFile (WriteFile c) = True"
| "is_WriteFile e = False"

text \<open>What an \<open>AppendFile\<close> event appends.\<close>

fun appended :: "event \<Rightarrow> jsstring" where
  "appended (AppendFile c) = c"
| "appended e = []"

text \<open>
  A check of the order of submissions and rows along a run, \<open>k\<close> being the number of
  rows appended so far: every submission of trial \<open>j\<close> happens when exactly \<open>j - 1\<close>
  rows have been appended.
\<close>

fun rows_before :: "nat \<Rightarrow> event list \<Rightarrow> bool" where
  "rows_before k [] = True"
| "rows_before k (Broadcast j a # es) = (j = Suc k \<and> rows_before k es)"
| "rows_before k (AppendFile c # es) = rows_before (Suc k) es"
| "rows_before k (e # es) = rows_before k es"

text \<open>
  The difference \<open>t1 - t0\<close> of a trial entered at \<open>clock\<close>, and the row it builds.
\<close>

definition trial_span :: "'a experiment_env_scheme \<Rightarrow> nat \<Rightarrow> nat \<Rightarrow> nat" where
  "trial_span env i clock =
     (case retry env i 1 (JNull, JStr [], clock) of
        (evs, res, errMsg, t1) \<Rightarrow> t1 - clock)"

definition trial_row :: "'a experiment_env_scheme \<Rightarrow> nat \<Rightarrow> nat \<Rightarrow> jsval" where
  "trial_row env i clock =
     (case retry env i 1 (JNull, JStr [], clock) of
        (evs, res, errMsg, t1) \<Rightarrow>
          make_row env i (payload_value (Date_now env i) i) (t1 - clock) res errMsg)"

text \<open>
  What the retry loop of trial \<open>i\<close> does and the \<open>res\<close> it ends with, what the whole
  trial does and the line it appends; none depends on the clock at which the trial
  starts, so they are taken at 0.
\<close>

definition attempts :: "'a experiment_env_scheme \<Rightarrow> nat \<Rightarrow> event list" where
  "attempts env i = fst (retry env i 1 (JNull, JStr [], 0))"

definition final_res :: "'a experiment_env_scheme \<Rightarrow> nat \<Rightarrow> jsval" where
  "final_res env i = fst (snd (retry env i 1 (JNull, JStr [], 0)))"

definition trial_events :: "'a experiment_env_scheme \<Rightarrow> nat \<Rightarrow> event list" where
  "trial_events env i = fst (trial env i 0)"

definition trial_line :: "'a experiment_env_scheme \<Rightarrow> nat \<Rightarrow> jsstring" where
  "trial_line env i = row_line (trial_row env i 0)"

text \<open>Reading a decimal numeral back.\<close>

definition undec :: "jsstring \<Rightarrow> nat" where
  "undec s = foldl (\<lambda>a c. 10 * a + (c - 48)) 0 s"

fun is_Query :: "event \<Rightarrow> bool" where
  "is_Query (Query k) = True"
| "is_Query e = False"

text \<open>
  A query that resolves without the expected value, and what the polling loop does on
  it: the query, a console line and a wait of 2000 ms.
\<close>

definition pending :: "'a confirm_env_scheme \<Rightarrow> nat \<Rightarrow> bool" where
  "pending env k =
     (case queryValue env k of
        Resolved v \<Rightarrow> opt_prop v (lit ''value'') \<noteq> JStr (newValue env)
      | Rejected e \<Rightarrow> False)"

definition waiting :: "nat \<Rightarrow> event list" where
  "waiting k = [Query k, ConsoleLog (lit ''waiting... current:''), Sleep 2000]"

text \<open>What a run of the experiment does before its first trial.\<close>

definition prelude :: "event list" where
  "prelude = [ConsoleLog (lit ''injectiveAddress:''), ConsoleLog (lit ''contract:''),
              ConsoleLog (lit ''N=''), WriteFile header_line]"

subsection \<open>Example environments\<close>

text \<open>
  The rendering \<open>nsToMs(d).toFixed(3)\<close> of the examples, computed as the code computes it:
  in IEEE 754 double precision. \<open>bitlen n\<close> is the number of binary digits of \<open>n\<close>, and
  \<open>round_half_even num den\<close> the integer nearest to \<open>num / den\<close>, the even one of two.
\<close>

fun bitlen :: "nat \<Rightarrow> nat" where
  "bitlen n = (if n = 0 then 0 else Suc (bitlen (n div 2)))"

declare bitlen.simps [simp del]

definition round_half_even :: "nat \<Rightarrow> nat \<Rightarrow> nat" where
  "round_half_even num den =
     (let q = num div den; r = num mod den
      in if 2 * r < den then q
         else if den < 2 * r then q + 1
         else if even q then q else q + 1)"

text \<open>
  The double nearest to \<open>num / den\<close>, as a fraction \<open>(p, q)\<close>: the quotient is scaled by
  the power of two that brings it into \<open>[2^52, 2^53)\<close>, rounded there to an integer, and
  scaled back. Overflow and subnormal numbers are out of reach of a duration.
\<close>

definition nearest_double :: "nat \<Rightarrow> nat \<Rightarrow> nat \<times> nat" where
  "nearest_double num den =
     (if num = 0 then (0, 1)
      else if 2 ^ 53 * den \<le> num
      then (let s0 = bitlen num - bitlen (2 ^ 53 * den);
                s = (if num < 2 ^ 53 * den * 2 ^ s0 then s0 else s0 + 1)
            in (round_half_even num (den * 2 ^ s) * 2 ^ s, 1))
      else (let e0 = bitlen (2 ^ 52 * den) - bitlen num;
                e = (if 2 ^ 52 * den \<le> num * 2 ^ e0 then e0 else e0 + 1)
            in (round_half_even (num * 2 ^ e) den, 2 ^ e)))"

text \<open>
  \<^verbatim>\<open>function nsToMs(ns) { return Number(ns) / 1e6; }\<close>
  \<open>Number(ns)\<close> is the double nearest to the integer, and the quotient the double nearest
  to the exact quotient of that double by \<open>10^6\<close>.
\<close>

definition nsToMs :: "nat \<Rightarrow> nat \<times> nat" where
  "nsToMs ns = (case nearest_double ns 1 of (p, q) \<Rightarrow> nearest_double p (q * 1000000))"

text \<open>
  \<open>x.toFixed(3)\<close> for \<open>x < 10^21\<close> prints the integer \<open>n\<close> for which \<open>n / 1000\<close> is nearest to
  the exact value of \<open>x\<close>, the larger of two, with a point before its last three digits.
  So \<open>toFixed3_exact 4500 = 0.004\<close>, the double nearest to \<open>0.0045\<close> being below it.
\<close>

definition toFixed3_exact :: "nat \<Rightarrow> jsstring" where
  "toFixed3_exact d =
     (case nsToMs d of (p, q) \<Rightarrow>
        (let n = (2000 * p + q) div (2 * q)
         in dec (n div 1000) @ lit ''.''
            @ [48 + n mod 1000 div 100, 48 + n mod 100 div 10, 48 + n mod 10]))"

text \<open>
  Two trials; in each, the first two attempts fail with \<open>account sequence mismatch\<close> and
  the third succeeds.
\<close>

definition env_sequence_race :: experiment_env where
  "env_sequence_race =
     \<lparr>CONTRACT = Some (lit ''inj1contract''), MNEMONIC = Some (lit ''test mnemonic''),
      fromMnemonic = Inr (lit ''inj1sender''),
      N = 2, SLEEP_MS = 0, Date_now = (\<lambda>i. 1700000000000),
      broadcast = (\<lambda>i a. if a < 3
                           then Rejected (JError (lit ''Error'') (lit ''account sequence mismatch''))
                           else Resolved (JObj [(lit ''txHash'', JStr (lit ''ABC123'')),
                                                (lit ''code'', JNum 0)])),
      broadcast_took = (\<lambda>i a. 250000000), sleep_took = (\<lambda>i a. 1200000000 * a),
      pause_took = (\<lambda>i. 0), toFixed3 = toFixed3_exact\<rparr>"

text \<open>One trial, accepted at the first attempt after 842.1 ms.\<close>

definition env_first_try :: experiment_env where
  "env_first_try =
     \<lparr>CONTRACT = Some (lit ''inj1contract''), MNEMONIC = Some (lit ''test mnemonic''),
      fromMnemonic = Inr (lit ''inj1sender''),
      N = 1, SLEEP_MS = 0, Date_now = (\<lambda>i. 1700000000),
      broadcast = (\<lambda>i a. Resolved (JObj [(lit ''txhash'', JStr (lit ''ABC123'')),
                                           (lit ''code'', JNum 0)])),
      broadcast_took = (\<lambda>i a. 842100000), sleep_took = (\<lambda>i a. 0),
      pause_took = (\<lambda>i. 0), toFixed3 = toFixed3_exact\<rparr>"

text \<open>One trial, every attempt of which fails with \<open>timeout\<close>.\<close>

definition env_timeout :: experiment_env where
  "env_timeout =
     \<lparr>CONTRACT = Some (lit ''inj1contract''), MNEMONIC = Some (lit ''test mnemonic''),
      fromMnemonic = Inr (lit ''inj1sender''),
      N = 1, SLEEP_MS = 0, Date_now = (\<lambda>i. 1700000000000),
      broadcast = (\<lambda>i a. Rejected (JError (lit ''Error'') (lit ''timeout''))),
      broadcast_took = (\<lambda>i a. 30000000000), sleep_took = (\<lambda>i a. 400000000 * a),
      pause_took = (\<lambda>i. 0), toFixed3 = toFixed3_exact\<rparr>"

text \<open>
  Environments of the worker. The example parser knows two texts: the request
  \<open>{"value":"qr-0001"}\<close> and the malformed \<open>{oops\<close>, for which it throws the
  \<open>SyntaxError\<close> of Node 18; for any other text it throws the error of an input that
  ends too early.
\<close>

definition example_JSON_parse :: "jsstring \<Rightarrow> jsval + jsval" where
  \<open>example_JSON_parse s =
     (if s = lit ''{"value":"qr-0001"}'' then Inr (JObj [(lit ''value'', JStr (lit ''qr-0001''))])
      else if s = lit ''{oops''
      then Inl (JError (lit ''SyntaxError'') (lit ''Unexpected token o in JSON at position 1''))
      else Inl (JError (lit ''SyntaxError'') (lit ''Unexpected end of JSON input'')))\<close>

definition worker_accepted :: worker_env where
  \<open>worker_accepted =
     \<lparr>CONTRACT = Some (lit ''inj1contract''), MNEMONIC = Some (lit ''test mnemonic''),
      fromMnemonic = Inr (lit ''inj1sender''),
      stdin = lit ''{"value":"qr-0001"}'' @ [LF], JSON_parse = example_JSON_parse,
      submit = Resolved (JObj [(lit ''txHash'', JStr (lit ''ABC123'')), (lit ''code'', JNum 0)]),
      submit_took = 842100000\<rparr>\<close>

text \<open>The same request, answered by a response that carries no hash.\<close>

definition worker_no_hash :: worker_env where
  "worker_no_hash = worker_accepted\<lparr>submit := Resolved (JObj [(lit ''code'', JNum 0)])\<rparr>"

text \<open>Nothing on the standard input; and a malformed text on it.\<close>

definition worker_empty_stdin :: worker_env where
  "worker_empty_stdin = worker_accepted\<lparr>stdin := []\<rparr>"

definition worker_malformed :: worker_env where
  "worker_malformed = worker_accepted\<lparr>stdin := lit ''{oops''\<rparr>"

text \<open>
  An environment of the confirmation poller: the first two queries still see the old
  value, the third sees the new one.
\<close>

definition confirm_third :: confirm_env where
  "confirm_third =
     \<lparr>CONTRACT = Some (lit ''inj1contract''), MNEMONIC = Some (lit ''test mnemonic''),
      fromMnemonic = Inr (lit ''inj1sender''),
      RPC = Some (lit ''https://rpc.example''), loaded_at = 1700000000000,
      send = Resolved (JObj [(lit ''txHash'', JStr (lit ''ABC123''))]),
      queryValue = (\<lambda>k. if k < 2 then Resolved (JObj [(lit ''value'', JStr (lit ''old''))])
                         else Resolved (JObj [(lit ''value'',
                                               JStr (lit ''hello-from-pi-1700000000000''))]))\<rparr>"

text \<open>An environment of the poller in which the new value never shows.\<close>

definition confirm_never :: confirm_env where
  "confirm_never =
     confirm_third\<lparr>queryValue := (\<lambda>k. Resolved (JObj [(lit ''value'', JStr (lit ''old''))]))\<rparr>"

chapter \<open>Properties\<close>

section \<open>CSV escaping: quoting and round trip\<close>

lemma replaceAll_dquote_Cons:
  "replaceAll_dquote (y # ys) =
     (if y = DQUOTE then [DQUOTE, DQUOTE] else [y]) @ replaceAll_dquote ys"
  by (simp add: replaceAll_dquote_def)

lemma escaped_roundtrip:
  "rest = [] \<or> hd rest \<noteq> DQUOTE \<Longrightarrow>
   rfc4180_escaped (replaceAll_dquote s @ DQUOTE # rest) = Some (s, rest)"
proof (induction s)
  case Nil
  then show ?case by (cases rest) (simp_all add: replaceAll_dquote_def)
next
  case (Cons x xs)
  obtain d ds where tl: "replaceAll_dquote xs @ DQUOTE # rest = d # ds"
    by (cases "replaceAll_dquote xs @ DQUOTE # rest") simp_all
  show ?case
  proof (cases "x = DQUOTE")
    case True
    with Cons show ?thesis by (simp add: replaceAll_dquote_Cons)
  next
    case False
    with Cons tl show ?thesis by (simp add: replaceAll_dquote_Cons)
  qed
qed

lemma plain_roundtrip:
  assumes "\<forall>c\<in>set s. textdata c" and "field_end rest"
  shows "rfc4180_field (s @ rest) = Some (s, rest)"
proof (cases s)
  case Nil
  with assms(2) show ?thesis by (cases rest) (auto simp: textdata_def)
next
  case (Cons x xs)
  from assms(2) have "takeWhile textdata rest = []" "dropWhile textdata rest = rest"
    by (cases rest; auto simp: textdata_def)+
  with assms(1) Cons show ?thesis by (auto simp: textdata_def)
qed

lemma esc_JStr:
  "esc (JStr s) =
     (if (\<exists>c\<in>set s. c = DQUOTE \<or> c = COMMA \<or> c = LF)
      then [DQUOTE] @ replaceAll_dquote s @ [DQUOTE] else s)"
  by (simp add: esc_def nullish_or_def list_ex_iff)

lemma field_roundtrip:
  assumes "(\<exists>c\<in>set s. c = DQUOTE \<or> c = COMMA \<or> c = LF) \<or> CR \<notin> set s"
    and "field_end rest"
  shows "rfc4180_field (esc (JStr s) @ rest) = Some (s, rest)"
proof (cases "\<exists>c\<in>set s. c = DQUOTE \<or> c = COMMA \<or> c = LF")
  case True
  from assms(2) have "rest = [] \<or> hd rest \<noteq> DQUOTE" by (cases rest) auto
  from escaped_roundtrip [OF this] True show ?thesis by (simp add: esc_JStr)
next
  case False
  with assms(1) have "\<forall>c\<in>set s. textdata c" by (auto simp: textdata_def)
  from plain_roundtrip [OF this assms(2)] False show ?thesis by (simp add: esc_JStr)
qed

text \<open>
  C6, amended. \<open>esc\<close> wraps a string in double quotes, every double quote inside doubled,
  exactly when the string contains a comma, a double quote or a line feed, and leaves it
  unchanged otherwise; \<open>null\<close> and \<open>undefined\<close> give the empty field. Parsing the escaped
  field back, with the end of the input, a comma or a line break after it, gives the
  original string whenever the string was quoted or contains no carriage return.
\<close>

theorem esc_quotes_and_round_trip:
  "esc (JStr s) =
     (if (\<exists>c\<in>set s. c = DQUOTE \<or> c = COMMA \<or> c = LF)
      then [DQUOTE] @ concat (map (\<lambda>c. if c = DQUOTE then [DQUOTE, DQUOTE] else [c]) s) @ [DQUOTE]
      else s)
   \<and> esc JNull = [] \<and> esc JUndefined = []
   \<and> (((\<exists>c\<in>set s. c = DQUOTE \<or> c = COMMA \<or> c = LF) \<or> CR \<notin> set s) \<and> field_end rest
        \<longrightarrow> rfc4180_field (esc (JStr s) @ rest) = Some (s, rest))"
proof (intro conjI impI)
  show "esc JNull = []" and "esc JUndefined = []"
    by (simp_all add: esc_def nullish_or_def)
  show "esc (JStr s) =
     (if (\<exists>c\<in>set s. c = DQUOTE \<or> c = COMMA \<or> c = LF)
      then [DQUOTE] @ concat (map (\<lambda>c. if c = DQUOTE then [DQUOTE, DQUOTE] else [c]) s) @ [DQUOTE]
      else s)"
    by (simp add: esc_JStr replaceAll_dquote_def)
next
  assume "((\<exists>c\<in>set s. c = DQUOTE \<or> c = COMMA \<or> c = LF) \<or> CR \<notin> set s) \<and> field_end rest"
  then show "rfc4180_field (esc (JStr s) @ rest) = Some (s, rest)"
    using field_roundtrip by blast
qed

text \<open>
  The theorem at the error message \<open>out of gas, "set_value" failed\<close>, which is quoted,
  and at \<open>timeout\<close>, which is not, each followed by the line feed that ends the row.
\<close>

theorem esc_quotes_and_round_trip_witness:
  "esc (JStr (lit ''out of gas, '' @ [DQUOTE] @ lit ''set_value'' @ [DQUOTE] @ lit '' failed''))
     = [DQUOTE] @ lit ''out of gas, '' @ [DQUOTE, DQUOTE] @ lit ''set_value'' @ [DQUOTE, DQUOTE]
       @ lit '' failed'' @ [DQUOTE]
   \<and> rfc4180_field
        (esc (JStr (lit ''out of gas, '' @ [DQUOTE] @ lit ''set_value'' @ [DQUOTE] @ lit '' failed''))
         @ [LF])
     = Some (lit ''out of gas, '' @ [DQUOTE] @ lit ''set_value'' @ [DQUOTE] @ lit '' failed'', [LF])
   \<and> esc (JStr (lit ''timeout'')) = lit ''timeout''
   \<and> rfc4180_field (esc (JStr (lit ''timeout'')) @ [LF]) = Some (lit ''timeout'', [LF])"
proof -
  let ?quoted = "lit ''out of gas, '' @ [DQUOTE] @ lit ''set_value'' @ [DQUOTE] @ lit '' failed''"
  let ?plain = "lit ''timeout''"
  have q: "(\<exists>c\<in>set ?quoted. c = DQUOTE \<or> c = COMMA \<or> c = LF)" by simp
  have p: "\<not> (\<exists>c\<in>set ?plain. c = DQUOTE \<or> c = COMMA \<or> c = LF)" "CR \<notin> set ?plain"
    by simp_all
  have e: "field_end [LF]" by simp
  note quoted = esc_quotes_and_round_trip [of ?quoted "[LF]"]
  note plain = esc_quotes_and_round_trip [of ?plain "[LF]"]
  have q1: "esc (JStr ?quoted) =
             [DQUOTE] @ concat (map (\<lambda>c. if c = DQUOTE then [DQUOTE, DQUOTE] else [c]) ?quoted)
             @ [DQUOTE]"
    using quoted [THEN conjunct1] q by (simp only: if_True)
  have q2: "rfc4180_field (esc (JStr ?quoted) @ [LF]) = Some (?quoted, [LF])"
    using quoted [THEN conjunct2, THEN conjunct2, THEN conjunct2] q e by blast
  have p1: "esc (JStr ?plain) = ?plain"
    using plain [THEN conjunct1] p(1) by (simp only: if_False)
  have p2: "rfc4180_field (esc (JStr ?plain) @ [LF]) = Some (?plain, [LF])"
    using plain [THEN conjunct2, THEN conjunct2, THEN conjunct2] p(2) e by blast
  from q1 have q3: "esc (JStr ?quoted) =
     [DQUOTE] @ lit ''out of gas, '' @ [DQUOTE, DQUOTE] @ lit ''set_value'' @ [DQUOTE, DQUOTE]
       @ lit '' failed'' @ [DQUOTE]" by simp
  from q3 q2 p1 p2 show ?thesis by (intro conjI)
qed

text \<open>
  The claim as stated fails at a string with a carriage return and none of the three
  characters: \<open>esc\<close> leaves \<open>a\<close>, carriage return, \<open>b\<close> unquoted, and the field read back
  ends at the carriage return.
\<close>

theorem esc_carriage_return_not_round_trip:
  "esc (JStr [97, CR, 98]) = [97, CR, 98]
   \<and> rfc4180_field (esc (JStr [97, CR, 98])) = Some ([97], [CR, 98])"
  by (simp add: esc_def nullish_or_def textdata_def)

section \<open>What the pattern matches\<close>

text \<open>
  The test succeeds exactly when the message contains, somewhere, a run of characters
  that equals one of the alternatives up to the case of ASCII letters.
\<close>

lemma matches_at_iff:
  "matches_at p s \<longleftrightarrow> (\<exists>m post. s = m @ post \<and> map canonicalize m = map canonicalize p)"
proof (induction p s rule: matches_at.induct)
  case (1 s)
  show ?case by simp
next
  case (2 p ps)
  show ?case by simp
next
  case (3 p ps c cs)
  show ?case
  proof
    assume "matches_at (p # ps) (c # cs)"
    with 3 obtain m post where "canonicalize p = canonicalize c" "cs = m @ post"
      "map canonicalize m = map canonicalize ps" by auto
    then have "c # cs = (c # m) @ post \<and> map canonicalize (c # m) = map canonicalize (p # ps)"
      by simp
    then show "\<exists>m post. c # cs = m @ post \<and> map canonicalize m = map canonicalize (p # ps)"
      by blast
  next
    assume "\<exists>m post. c # cs = m @ post \<and> map canonicalize m = map canonicalize (p # ps)"
    then obtain m post where h: "c # cs = m @ post" "map canonicalize m = map canonicalize (p # ps)"
      by blast
    from h(2) obtain x m' where m: "m = x # m'" by (cases m) auto
    with h have "x = c" "cs = m' @ post" "canonicalize x = canonicalize p"
      "map canonicalize m' = map canonicalize ps" by auto
    with 3 show "matches_at (p # ps) (c # cs)" by auto
  qed
qed

lemma regex_test_iff:
  "regex_test alts s \<longleftrightarrow>
     (\<exists>p\<in>set alts. \<exists>pre m post. s = pre @ m @ post \<and> map canonicalize m = map canonicalize p)"
proof (induction s)
  case Nil
  show ?case by (auto simp: list_ex_iff matches_at_iff)
next
  case (Cons c cs)
  show ?case
  proof
    assume "regex_test alts (c # cs)"
    then consider "list_ex (\<lambda>p. matches_at p (c # cs)) alts" | "regex_test alts cs" by auto
    then show "\<exists>p\<in>set alts. \<exists>pre m post. c # cs = pre @ m @ post
                 \<and> map canonicalize m = map canonicalize p"
    proof cases
      case 1
      then obtain p m post where "p \<in> set alts" "c # cs = [] @ m @ post"
        "map canonicalize m = map canonicalize p"
        by (auto simp: list_ex_iff matches_at_iff)
      then show ?thesis by blast
    next
      case 2
      with Cons obtain p pre m post where "p \<in> set alts" "cs = pre @ m @ post"
        "map canonicalize m = map canonicalize p" by blast
      then have "c # cs = (c # pre) @ m @ post" by simp
      with \<open>p \<in> set alts\<close> \<open>map canonicalize m = map canonicalize p\<close> show ?thesis by blast
    qed
  next
    assume "\<exists>p\<in>set alts. \<exists>pre m post. c # cs = pre @ m @ post
                 \<and> map canonicalize m = map canonicalize p"
    then obtain p pre m post where h: "p \<in> set alts" "c # cs = pre @ m @ post"
      "map canonicalize m = map canonicalize p" by blast
    show "regex_test alts (c # cs)"
    proof (cases pre)
      case Nil
      with h have "matches_at p (c # cs)" by (auto simp: matches_at_iff)
      with h(1) show ?thesis by (auto simp: list_ex_iff)
    next
      case (Cons x pre')
      with h have "cs = pre' @ m @ post" by simp
      with h Cons.IH have "regex_test alts cs" by blast
      then show ?thesis by simp
    qed
  qed
qed

section \<open>The retry loop\<close>

lemma retry_step:
  "a \<le> 3 \<Longrightarrow> retry env i a (res, m, c) =
     (case broadcast env i a of
        Resolved r \<Rightarrow> ([Broadcast i a], r, JStr [], c + broadcast_took env i a)
      | Rejected e \<Rightarrow>
          (Broadcast i a # Sleep (backoff_ms (classify (failure_text e)) a)
             # fst (retry env i (a + 1) (res, caught_message e, c + broadcast_took env i a + sleep_took env i a)),
           snd (retry env i (a + 1) (res, caught_message e, c + broadcast_took env i a + sleep_took env i a))))"
  by (subst retry.simps) (simp add: classify_def failure_text_def split: outcome.splits prod.splits)

lemma retry_done: "3 < a \<Longrightarrow> retry env i a s = ([], s)"
  by (cases s) (simp add: retry.simps)

lemma one_plus_one: "(1::nat) + 1 = 2" and two_plus_one: "(2::nat) + 1 = 3"
  and three_plus_one: "(3::nat) + 1 = 4"
  by simp_all

lemma retry_at_1:
  "retry env i 1 (res, m, c) =
     (case broadcast env i 1 of
        Resolved r \<Rightarrow> ([Broadcast i 1], r, JStr [], c + broadcast_took env i 1)
      | Rejected e \<Rightarrow>
          (Broadcast i 1 # Sleep (backoff_ms (classify (failure_text e)) 1)
             # fst (retry env i 2 (res, caught_message e, c + broadcast_took env i 1 + sleep_took env i 1)),
           snd (retry env i 2 (res, caught_message e, c + broadcast_took env i 1 + sleep_took env i 1))))"
  using retry_step [of 1 env i res m c] by (simp only: one_plus_one)

lemma retry_at_2:
  "retry env i 2 (res, m, c) =
     (case broadcast env i 2 of
        Resolved r \<Rightarrow> ([Broadcast i 2], r, JStr [], c + broadcast_took env i 2)
      | Rejected e \<Rightarrow>
          (Broadcast i 2 # Sleep (backoff_ms (classify (failure_text e)) 2)
             # fst (retry env i 3 (res, caught_message e, c + broadcast_took env i 2 + sleep_took env i 2)),
           snd (retry env i 3 (res, caught_message e, c + broadcast_took env i 2 + sleep_took env i 2))))"
  using retry_step [of 2 env i res m c] by (simp only: two_plus_one)

lemma retry_at_3:
  "retry env i 3 (res, m, c) =
     (case broadcast env i 3 of
        Resolved r \<Rightarrow> ([Broadcast i 3], r, JStr [], c + broadcast_took env i 3)
      | Rejected e \<Rightarrow>
          (Broadcast i 3 # Sleep (backoff_ms (classify (failure_text e)) 3)
             # fst (retry env i 4 (res, caught_message e, c + broadcast_took env i 3 + sleep_took env i 3)),
           snd (retry env i 4 (res, caught_message e, c + broadcast_took env i 3 + sleep_took env i 3))))"
  using retry_step [of 3 env i res m c] by (simp only: three_plus_one)

lemma retry_at_4: "retry env i 4 s = ([], s)"
  by (simp add: retry_done)

lemmas retry_unroll =
  retry_at_1 retry_at_2 retry_at_3 retry_at_4 outcome.case fst_conv snd_conv

text \<open>
  C1, amended. A trial issues at most three submissions. The four ways the loop can go
  are: a success at the first, second or third attempt, after which nothing more is
  submitted and no delay follows, the value of that attempt being the loop's \<open>res\<close>; or
  three failures, after which \<open>res\<close> is still \<open>null\<close> and \<open>errMsg\<close> is the message of the
  third. Every failed attempt \<open>a\<close>, the third included, is followed by a delay of
  \<open>1200 * a\<close> ms when its message is classified as a sequence error and of \<open>400 * a\<close> ms
  otherwise.
\<close>

theorem retry_loop_trace:
  "(broadcast env i 1 = Resolved r \<longrightarrow>
      fst (retry env i 1 (JNull, JStr [], c)) = [Broadcast i 1]
      \<and> fst (snd (retry env i 1 (JNull, JStr [], c))) = r)
 \<and> (broadcast env i 1 = Rejected e1 \<and> broadcast env i 2 = Resolved r \<longrightarrow>
      fst (retry env i 1 (JNull, JStr [], c)) =
        [Broadcast i 1, Sleep (backoff_ms (classify (failure_text e1)) 1), Broadcast i 2]
      \<and> fst (snd (retry env i 1 (JNull, JStr [], c))) = r)
 \<and> (broadcast env i 1 = Rejected e1 \<and> broadcast env i 2 = Rejected e2
      \<and> broadcast env i 3 = Resolved r \<longrightarrow>
      fst (retry env i 1 (JNull, JStr [], c)) =
        [Broadcast i 1, Sleep (backoff_ms (classify (failure_text e1)) 1),
         Broadcast i 2, Sleep (backoff_ms (classify (failure_text e2)) 2), Broadcast i 3]
      \<and> fst (snd (retry env i 1 (JNull, JStr [], c))) = r)
 \<and> (broadcast env i 1 = Rejected e1 \<and> broadcast env i 2 = Rejected e2
      \<and> broadcast env i 3 = Rejected e3 \<longrightarrow>
      fst (retry env i 1 (JNull, JStr [], c)) =
        [Broadcast i 1, Sleep (backoff_ms (classify (failure_text e1)) 1),
         Broadcast i 2, Sleep (backoff_ms (classify (failure_text e2)) 2),
         Broadcast i 3, Sleep (backoff_ms (classify (failure_text e3)) 3)]
      \<and> fst (snd (retry env i 1 (JNull, JStr [], c))) = JNull
      \<and> fst (snd (snd (retry env i 1 (JNull, JStr [], c)))) = caught_message e3)
 \<and> length (filter is_Broadcast (fst (retry env i 1 (JNull, JStr [], c)))) \<le> 3"
proof (intro conjI impI)
  show "length (filter is_Broadcast (fst (retry env i 1 (JNull, JStr [], c)))) \<le> 3"
    by (cases "broadcast env i 1"; cases "broadcast env i 2"; cases "broadcast env i 3")
       (simp_all only: retry_unroll, simp_all)
qed (simp_all only: retry_unroll)

lemma failure_text_Error: "m \<noteq> [] \<Longrightarrow> failure_text (JError n m) = m"
  by (simp add: failure_text_def caught_message_def js_or_def js_and_def)

lemma classify_sequence_mismatch:
  "classify (lit ''account sequence mismatch'') = TransientSequenceError"
  by (simp add: classify_def sequence_pattern_def canonicalize_def)

lemma classify_timeout: "classify (lit ''timeout'') = OtherTransientError"
  by (simp add: classify_def sequence_pattern_def canonicalize_def)

text \<open>
  The theorem in the environment where two sequence errors precede a success: the delays
  are 1200 ms and 2400 ms, and nothing follows the third submission.
\<close>

theorem retry_loop_trace_witness:
  "fst (retry env_sequence_race 1 1 (JNull, JStr [], 0)) =
     [Broadcast 1 1, Sleep 1200, Broadcast 1 2, Sleep 2400, Broadcast 1 3]"
proof -
  let ?e = "JError (lit ''Error'') (lit ''account sequence mismatch'')"
  let ?r = "JObj [(lit ''txHash'', JStr (lit ''ABC123'')), (lit ''code'', JNum 0)]"
  have b: "broadcast env_sequence_race 1 1 = Rejected ?e"
    "broadcast env_sequence_race 1 2 = Rejected ?e"
    "broadcast env_sequence_race 1 3 = Resolved ?r"
    by (simp_all add: env_sequence_race_def)
  have k: "classify (failure_text ?e) = TransientSequenceError"
    using classify_sequence_mismatch by (simp add: failure_text_Error)
  have "fst (retry env_sequence_race 1 1 (JNull, JStr [], 0)) =
        [Broadcast 1 1, Sleep (backoff_ms (classify (failure_text ?e)) 1),
         Broadcast 1 2, Sleep (backoff_ms (classify (failure_text ?e)) 2), Broadcast 1 3]"
    using retry_loop_trace [where env = env_sequence_race and i = 1 and c = 0
        and ?e1.0 = ?e and ?e2.0 = ?e and r = ?r] b
    by blast
  then show ?thesis by (simp only: k backoff_ms.simps) simp
qed

text \<open>
  The claim as stated fails where all three attempts fail: the wait of \<open>400 * 3\<close> ms
  follows the third attempt.
\<close>

theorem delay_after_final_attempt:
  "fst (retry env_timeout 1 1 (JNull, JStr [], 0)) =
     [Broadcast 1 1, Sleep 400, Broadcast 1 2, Sleep 800, Broadcast 1 3, Sleep 1200]"
proof -
  let ?e = "JError (lit ''Error'') (lit ''timeout'')"
  have b: "\<And>i a. broadcast env_timeout i a = Rejected ?e"
    by (simp add: env_timeout_def)
  have k: "classify (failure_text ?e) = OtherTransientError"
    using classify_timeout by (simp add: failure_text_Error)
  show ?thesis
    by (simp only: retry_unroll b k backoff_ms.simps) simp
qed


section \<open>The trial loop: what a run does\<close>

lemma retry_clock:
  "retry env i 1 (res, m, c) =
     (case retry env i 1 (res, m, 0) of (evs, r, m', d) \<Rightarrow> (evs, r, m', c + d))"
  by (cases "broadcast env i 1"; cases "broadcast env i 2"; cases "broadcast env i 3")
     (simp_all only: retry_unroll, simp_all)

lemma trial_row_clock: "trial_row env i c = trial_row env i 0"
  unfolding trial_row_def
  by (subst retry_clock) (simp split: prod.splits)

lemma trial_appends_its_row:
  "trial env i c =
     (case retry env i 1 (JNull, JStr [], c) of
        (evs, res, errMsg, t1) \<Rightarrow>
          (evs
           @ [AppendFile (row_line (trial_row env i c)),
              ConsoleLog (if truthy res then lit ''ok'' else lit ''ERROR'')]
           @ (if SLEEP_MS env > 0 then [Sleep (SLEEP_MS env)] else []),
           t1 + (if SLEEP_MS env > 0 then pause_took env i else 0)))"
  by (simp add: trial_def trial_row_def Let_def split: prod.splits)

lemma trial_events_clock: "fst (trial env i c) = trial_events env i"
  unfolding trial_events_def trial_appends_its_row
  by (subst retry_clock) (simp split: prod.splits add: trial_row_clock [of env i c])

lemma trials_eq: "trials env i c = concat (map (trial_events env) [i..<Suc (N env)])"
proof (induction env i c rule: trials.induct)
  case (1 env i clock)
  show ?case
  proof (cases "i \<le> N env")
    case True
    obtain evs clock' where t: "trial env i clock = (evs, clock')" by (cases "trial env i clock")
    with trial_events_clock [of env i clock] have e: "evs = trial_events env i" by simp
    from True have u: "[i..<Suc (N env)] = i # [Suc i..<Suc (N env)]"
      by (simp add: upt_conv_Cons)
    from 1 [OF True t [symmetric]] True t e u show ?thesis
      by (subst trials.simps) simp
  next
    case False
    then show ?thesis by (subst trials.simps) simp
  qed
qed

lemma trial_events_shape:
  "trial_events env i =
     attempts env i
     @ [AppendFile (trial_line env i),
        ConsoleLog (if truthy (final_res env i) then lit ''ok'' else lit ''ERROR'')]
     @ (if SLEEP_MS env > 0 then [Sleep (SLEEP_MS env)] else [])"
  by (simp add: trial_events_def trial_appends_its_row trial_line_def attempts_def final_res_def
        split: prod.splits)

text \<open>The events of the retry loop of trial \<open>i\<close> are its submissions and waits.\<close>

lemma attempts_appends: "filter is_AppendFile (attempts env i) = []"
  unfolding attempts_def
  by (cases "broadcast env i 1"; cases "broadcast env i 2"; cases "broadcast env i 3";
      simp only: retry_unroll; simp)

lemma attempts_writes: "filter is_WriteFile (attempts env i) = []"
  unfolding attempts_def
  by (cases "broadcast env i 1"; cases "broadcast env i 2"; cases "broadcast env i 3";
      simp only: retry_unroll; simp)

lemma attempts_rows_before:
  "rows_before k (attempts env i @ es) = (i = Suc k \<and> rows_before k es)"
  unfolding attempts_def
  by (cases "broadcast env i 1"; cases "broadcast env i 2"; cases "broadcast env i 3";
      simp only: retry_unroll; simp)

lemma trial_appends: "filter is_AppendFile (trial_events env i) = [AppendFile (trial_line env i)]"
  by (simp add: trial_events_shape attempts_appends)

lemma trial_writes: "filter is_WriteFile (trial_events env i) = []"
  by (simp add: trial_events_shape attempts_writes)

lemma trial_rows_before:
  "rows_before k (trial_events env i @ es) = (i = Suc k \<and> rows_before (Suc k) es)"
  by (simp add: trial_events_shape attempts_rows_before)

lemma concat_singletons: "concat (map (\<lambda>i. [g i]) xs) = map g xs"
  by (induction xs) simp_all

lemma trials_appends:
  "filter is_AppendFile (concat (map (trial_events env) is)) =
     map (\<lambda>i. AppendFile (trial_line env i)) is"
  by (induction "is") (simp_all add: trial_appends)

lemma trials_writes: "filter is_WriteFile (concat (map (trial_events env) is)) = []"
  by (induction "is") (simp_all add: trial_writes)

lemma trials_rows_before:
  "rows_before 0 (concat (map (trial_events env) [1..<Suc n]) @ es) = rows_before n es"
proof (induction n arbitrary: es)
  case 0
  show ?case by simp
next
  case (Suc n)
  have "concat (map (trial_events env) [1..<Suc (Suc n)]) @ es =
        concat (map (trial_events env) [1..<Suc n]) @ (trial_events env (Suc n) @ es)"
    by simp
  then show ?case by (simp only: Suc trial_rows_before) simp
qed

lemma file_after_append: "file_after f (xs @ ys) = file_after (file_after f xs) ys"
  by (simp add: file_after_def)

lemma file_after_appends:
  "filter is_WriteFile u = [] \<Longrightarrow>
   file_after (Some x) u = Some (x @ concat (map appended (filter is_AppendFile u)))"
proof (induction u arbitrary: x)
  case Nil
  show ?case by (simp add: file_after_def)
next
  case (Cons e u)
  from Cons.prems have nw: "filter is_WriteFile u = []" and e: "\<not> is_WriteFile e"
    by (auto split: if_splits)
  have step: "file_after (Some x) (e # u) = file_after (file_step (Some x) e) u"
    by (simp add: file_after_def)
  show ?case
  proof (cases e)
    case (AppendFile c)
    with Cons.IH [OF nw, of "x @ c"] step show ?thesis by simp
  next
    case (WriteFile c)
    with e show ?thesis by simp
  qed (use Cons.IH [OF nw, of x] step in simp_all)
qed

lemma rows_before_prefix:
  "rows_before k t \<Longrightarrow> prefix p t \<Longrightarrow> Broadcast j a \<in> set p \<Longrightarrow>
   j \<le> Suc (k + length (filter is_AppendFile p))"
proof (induction k t arbitrary: p rule: rows_before.induct)
  case (1 k)
  then show ?case by simp
next
  case (2 k j' a' es)
  from "2.prems"(2,3) obtain p' where p: "p = Broadcast j' a' # p'" and pp: "prefix p' es"
    by (cases p) auto
  show ?case
  proof (cases "Broadcast j a \<in> set p'")
    case True
    with "2.IH" [OF _ pp] "2.prems"(1) p show ?thesis by simp
  next
    case False
    with "2.prems" p show ?thesis by simp
  qed
next
  case (3 k c es)
  from "3.prems"(2,3) obtain p' where p: "p = AppendFile c # p'" and pp: "prefix p' es"
    by (cases p) auto
  with "3.prems" have "Broadcast j a \<in> set p'" by simp
  with "3.IH" [OF _ pp] "3.prems"(1) have "j \<le> Suc (Suc k + length (filter is_AppendFile p'))"
    by simp
  then show ?case unfolding p by simp
qed (auto simp: prefix_Cons)

lemma prefix_of_rows:
  assumes "prefix xs (map g [1..<Suc n])"
  shows "xs = map g [1..<Suc (length xs)] \<and> length xs \<le> n"
proof -
  from assms have "length xs \<le> length (map g [1..<Suc n])" by (rule prefix_length_le)
  then have len: "length xs \<le> n" by (simp del: upt_Suc)
  from assms have "xs = take (length xs) (map g [1..<Suc n])"
    by (metis append_eq_conv_conj prefix_def)
  also have "\<dots> = map g [1..<Suc (length xs)]"
    using len by (simp add: take_map del: upt_Suc)
  finally show ?thesis using len by simp
qed

lemma dec_digits: "c \<in> set (dec n) \<Longrightarrow> 48 \<le> c \<and> c \<le> 57"
proof (induction n rule: dec.induct)
  case (1 n)
  then show ?case
    by (subst (asm) dec.simps) (auto split: if_splits)
qed

lemma esc_index: "esc (JNum (int i)) = dec i"
proof -
  have "\<not> list_ex (\<lambda>c. c = DQUOTE \<or> c = COMMA \<or> c = LF) (dec i)"
    using dec_digits [of DQUOTE i] dec_digits [of COMMA i] dec_digits [of LF i]
    by (auto simp: list_ex_iff)
  then show ?thesis by (simp add: esc_def nullish_or_def num_str_def)
qed

lemma trial_line_index: "\<exists>rest. trial_line env i = dec i @ [COMMA] @ rest"
  by (simp add: trial_line_def trial_row_def make_row_def row_line_def header_def esc_index
        split: prod.splits)

lemma main_trace:
  assumes "\<not> missing (CONTRACT env)" "\<not> missing (MNEMONIC env)" "fromMnemonic env = Inr address"
  shows "experiment_main env =
     (prelude @ concat (map (trial_events env) [1..<Suc (N env)]) @ [ConsoleLog (lit ''wrote:'')], 0)"
  using assms by (simp add: experiment_main_def trials_eq prelude_def)


section \<open>The rows of the example runs\<close>

text \<open>
  Durations as the code prints them: the double nearest to \<open>0.0045\<close> is below it, so
  4500 ns are printed as \<open>0.004\<close>.
\<close>

lemma toFixed3_examples:
  "toFixed3_exact 4350000000 = lit ''4350.000''"
  "toFixed3_exact 842100000 = lit ''842.100''"
  "toFixed3_exact 92400000000 = lit ''92400.000''"
  "toFixed3_exact 4500 = lit ''0.004''"
  by (simp_all add: toFixed3_exact_def nsToMs_def nearest_double_def round_half_even_def
        bitlen.simps dec.simps Let_def)

text \<open>
  A submission accepted at the first attempt after 842.1 ms: the row carries the hash,
  \<open>842.100\<close> and no error.
\<close>

lemma first_try_row:
  "trial_line env_first_try 1 = lit ''1,pi-exp-1700000000-1,842.100,ABC123,0,,,,,'' @ [LF]"
proof -
  let ?r = "JObj [(lit ''txhash'', JStr (lit ''ABC123'')), (lit ''code'', JNum 0)]"
  have b: "\<And>i a. broadcast env_first_try i a = Resolved ?r"
    "\<And>i a. broadcast_took env_first_try i a = 842100000"
    by (simp_all add: env_first_try_def)
  have r: "retry env_first_try 1 1 (JNull, JStr [], 0) = ([Broadcast 1 1], ?r, JStr [], 842100000)"
    by (simp only: retry_unroll b) simp
  have f: "toFixed3 env_first_try = toFixed3_exact" "\<And>i. Date_now env_first_try i = 1700000000"
    by (simp_all add: env_first_try_def)
  note d = toFixed3_examples(2)
  have v: "payload_value 1700000000 (Suc 0) = lit ''pi-exp-1700000000-1''"
    by (simp add: payload_value_def num_str_def dec.simps)
  have digits: "dec (Suc 0) = lit ''1''" "dec 0 = lit ''0''" by (simp_all add: dec.simps)
  show ?thesis
    unfolding trial_line_def trial_row_def r
    by (simp add: f d v make_row_def row_line_def header_def esc_def nullish_or_def opt_prop_def
          js_or_def num_str_def digits)
qed



text \<open>
  Two attempts of 250 ms that fail with a sequence error, the waits of 1200 ms and
  2400 ms after them, and a third attempt of 250 ms that succeeds: 4350 ms in all, in
  either trial.
\<close>

lemma sequence_race_retry:
  "retry env_sequence_race i 1 (JNull, JStr [], 0) =
     ([Broadcast i 1, Sleep 1200, Broadcast i 2, Sleep 2400, Broadcast i 3],
      JObj [(lit ''txHash'', JStr (lit ''ABC123'')), (lit ''code'', JNum 0)], JStr [], 4350000000)"
proof -
  let ?e = "JError (lit ''Error'') (lit ''account sequence mismatch'')"
  let ?r = "JObj [(lit ''txHash'', JStr (lit ''ABC123'')), (lit ''code'', JNum 0)]"
  have b: "\<And>i. broadcast env_sequence_race i 1 = Rejected ?e"
    "\<And>i. broadcast env_sequence_race i 2 = Rejected ?e"
    "\<And>i. broadcast env_sequence_race i 3 = Resolved ?r"
    "\<And>i a. broadcast_took env_sequence_race i a = 250000000"
    "\<And>i a. sleep_took env_sequence_race i a = 1200000000 * a"
    by (simp_all add: env_sequence_race_def)
  have k: "classify (failure_text ?e) = TransientSequenceError"
    using classify_sequence_mismatch by (simp add: failure_text_Error)
  show ?thesis
    by (simp only: retry_unroll b k backoff_ms.simps) simp
qed

lemma sequence_race_rows:
  "row_line (trial_row env_sequence_race 1 0) =
     lit ''1,pi-exp-1700000000000-1,4350.000,ABC123,0,,,,,'' @ [LF]"
  "row_line (trial_row env_sequence_race 2 0) =
     lit ''2,pi-exp-1700000000000-2,4350.000,ABC123,0,,,,,'' @ [LF]"
proof -
  have f: "toFixed3 env_sequence_race = toFixed3_exact"
    "\<And>i. Date_now env_sequence_race i = 1700000000000"
    by (simp_all add: env_sequence_race_def)
  note d = toFixed3_examples(1)
  have v: "payload_value 1700000000000 (Suc 0) = lit ''pi-exp-1700000000000-1''"
    "payload_value 1700000000000 2 = lit ''pi-exp-1700000000000-2''"
    by (simp_all add: payload_value_def num_str_def dec.simps)
  have digits: "dec (Suc 0) = lit ''1''" "dec 2 = lit ''2''" "dec 0 = lit ''0''"
    by (simp_all add: dec.simps)
  show "row_line (trial_row env_sequence_race 1 0) =
     lit ''1,pi-exp-1700000000000-1,4350.000,ABC123,0,,,,,'' @ [LF]"
    unfolding trial_row_def sequence_race_retry
    by (simp add: f d v make_row_def row_line_def header_def esc_def nullish_or_def opt_prop_def
          js_or_def num_str_def digits)
  show "row_line (trial_row env_sequence_race 2 0) =
     lit ''2,pi-exp-1700000000000-2,4350.000,ABC123,0,,,,,'' @ [LF]"
    unfolding trial_row_def sequence_race_retry
    by (simp add: f d v make_row_def row_line_def header_def esc_def nullish_or_def opt_prop_def
          js_or_def num_str_def digits)
qed



text \<open>The header line of the file.\<close>

lemma header_line_text:
  "header_line =
     lit ''i,value,broadcast_ms,txhash,code,height,gasWanted,gasUsed,timestamp,error'' @ [LF]"
  by (simp add: header_line_def header_def)

section \<open>Rows and their order\<close>

lemma prelude_facts:
  "filter is_AppendFile prelude = []" "file_after f prelude = Some header_line"
  "rows_before 0 (prelude @ es) = rows_before 0 es"
  by (simp_all add: prelude_def file_after_def)

lemma upt_prefix: "j \<le> n \<Longrightarrow> prefix [i..<j] [i..<n]"
proof (cases "i \<le> j")
  case True
  assume "j \<le> n"
  then obtain k where n: "n = j + k" using le_Suc_ex by blast
  from upt_add_eq_append [OF True, of k] show ?thesis unfolding n by (simp add: prefix_def)
next
  case False
  then show ?thesis by simp
qed

lemma run_appends:
  assumes "\<not> missing (CONTRACT env)" "\<not> missing (MNEMONIC env)" "fromMnemonic env = Inr address"
  shows "filter is_AppendFile (fst (experiment_main env)) =
         map (\<lambda>i. AppendFile (trial_line env i)) [1..<Suc (N env)]"
  by (simp add: main_trace [OF assms] prelude_facts trials_appends del: upt_Suc)

lemma run_rows_before:
  assumes "\<not> missing (CONTRACT env)" "\<not> missing (MNEMONIC env)" "fromMnemonic env = Inr address"
  shows "rows_before 0 (fst (experiment_main env))"
  using trials_rows_before [of env "N env" "[ConsoleLog (lit ''wrote:'')]"]
  by (simp add: main_trace [OF assms] prelude_facts del: upt_Suc)

lemma run_file:
  assumes "\<not> missing (CONTRACT env)" "\<not> missing (MNEMONIC env)" "fromMnemonic env = Inr address"
  shows "file_after f (fst (experiment_main env)) =
         Some (header_line @ concat (map (trial_line env) [1..<Suc (N env)]))"
proof -
  let ?rest = "concat (map (trial_events env) [1..<Suc (N env)]) @ [ConsoleLog (lit ''wrote:'')]"
  have "filter is_WriteFile ?rest = []" by (simp add: trials_writes del: upt_Suc)
  from file_after_appends [OF this, of header_line]
  have "file_after (Some header_line) ?rest =
        Some (header_line @ concat (map (trial_line env) [1..<Suc (N env)]))"
    by (simp add: trials_appends comp_def del: upt_Suc)
  then show ?thesis
    by (simp add: main_trace [OF assms] file_after_append prelude_facts del: upt_Suc)
qed

text \<open>
  C4. In a run that reaches the trial loop (the configuration is present and the key
  loads), the rows appended are, in this order, the rows of the trials 1 to \<open>N\<close>, one
  for each; the row of trial \<open>i\<close> starts with the index \<open>i\<close>; the file at the end is the
  header followed by these rows; and at any point of the run at which a submission of
  trial \<open>j\<close> has been issued, the rows of the trials 1 to \<open>j - 1\<close> have been appended.
\<close>

theorem one_row_per_trial_in_order:
  assumes "\<not> missing (CONTRACT env)" and "\<not> missing (MNEMONIC env)"
    and "fromMnemonic env = Inr address"
  shows "filter is_AppendFile (fst (experiment_main env)) =
           map (\<lambda>i. AppendFile (trial_line env i)) [1..<Suc (N env)]
       \<and> (\<forall>i. \<exists>rest. trial_line env i = dec i @ [COMMA] @ rest)
       \<and> file_after f (fst (experiment_main env)) =
           Some (header_line @ concat (map (trial_line env) [1..<Suc (N env)]))
       \<and> (\<forall>p j a. prefix p (fst (experiment_main env)) \<and> Broadcast j a \<in> set p \<longrightarrow>
             prefix (map (\<lambda>i. AppendFile (trial_line env i)) [1..<j]) (filter is_AppendFile p))"
proof (intro conjI allI impI)
  show "filter is_AppendFile (fst (experiment_main env)) =
           map (\<lambda>i. AppendFile (trial_line env i)) [1..<Suc (N env)]"
    by (rule run_appends [OF assms])
  show "\<exists>rest. trial_line env i = dec i @ [COMMA] @ rest" for i
    by (rule trial_line_index)
  show "file_after f (fst (experiment_main env)) =
           Some (header_line @ concat (map (trial_line env) [1..<Suc (N env)]))"
    by (rule run_file [OF assms])
next
  fix p j a
  assume h: "prefix p (fst (experiment_main env)) \<and> Broadcast j a \<in> set p"
  let ?rows = "\<lambda>n. map (\<lambda>i. AppendFile (trial_line env i)) [1..<Suc n]"
  from h have "prefix (filter is_AppendFile p) (?rows (N env))"
    using run_appends [OF assms] filter_mono_prefix by metis
  from prefix_of_rows [OF this]
  have rows: "filter is_AppendFile p = ?rows (length (filter is_AppendFile p))" by simp
  from rows_before_prefix [OF run_rows_before [OF assms]] h
  have "j \<le> Suc (length (filter is_AppendFile p))" by fastforce
  then have "prefix [1..<j] [1..<Suc (length (filter is_AppendFile p))]"
    by (rule upt_prefix)
  then have "prefix (map (\<lambda>i. AppendFile (trial_line env i)) [1..<j])
                    (?rows (length (filter is_AppendFile p)))"
    by (rule map_mono_prefix)
  with rows show "prefix (map (\<lambda>i. AppendFile (trial_line env i)) [1..<j]) (filter is_AppendFile p)"
    by simp
qed

lemma upt_1_3: "[1..<Suc 2] = [1, 2]"
  by (simp add: upt_conv_Cons)

lemma env_sequence_race_ready:
  "\<not> missing (CONTRACT env_sequence_race)" "\<not> missing (MNEMONIC env_sequence_race)"
  "fromMnemonic env_sequence_race = Inr (lit ''inj1sender'')" "N env_sequence_race = 2"
  by (simp_all add: env_sequence_race_def missing_def)

text \<open>The theorem in the environment of two trials.\<close>

theorem one_row_per_trial_in_order_witness:
  "filter is_AppendFile (fst (experiment_main env_sequence_race)) =
     [AppendFile (trial_line env_sequence_race 1), AppendFile (trial_line env_sequence_race 2)]
   \<and> file_after None (fst (experiment_main env_sequence_race)) =
     Some (header_line @ trial_line env_sequence_race 1 @ trial_line env_sequence_race 2)"
  using one_row_per_trial_in_order [OF env_sequence_race_ready(1,2,3), of None]
  by (simp only: env_sequence_race_ready(4) upt_1_3) simp


section \<open>What \<open>broadcast_ms\<close> measures\<close>

lemma row_broadcast_ms:
  "get_prop (trial_row env i c) (lit ''broadcast_ms'') = JStr (toFixed3 env (trial_span env i c))"
  by (simp add: trial_row_def trial_span_def make_row_def split: prod.splits)

lemma trial_clock:
  "snd (trial env i c) =
     c + trial_span env i c + (if SLEEP_MS env > 0 then pause_took env i else 0)"
  unfolding trial_def trial_span_def
  by (subst (1 2) retry_clock) (simp add: Let_def split: prod.splits)

lemma trial_appends_at:
  "filter is_AppendFile (fst (trial env i c)) = [AppendFile (row_line (trial_row env i c))]"
  by (simp add: trial_events_clock trial_appends trial_line_def trial_row_clock [of env i c])

lemma run_appends_at:
  assumes "\<not> missing (CONTRACT env)" "\<not> missing (MNEMONIC env)" "fromMnemonic env = Inr address"
  shows "filter is_AppendFile (fst (experiment_main env)) =
         map (\<lambda>j. AppendFile (row_line (trial_row env j c))) [1..<Suc (N env)]"
  by (simp add: run_appends [OF assms] trial_line_def trial_row_clock [of env _ c] del: upt_Suc)

text \<open>
  C10. A trial entered when the clock reads \<open>c\<close> appends one line, the line of a row whose
  \<open>broadcast_ms\<close> renders the difference of the two clock readings taken before and after
  the whole retry loop; the trial ends when the clock reads \<open>c\<close> plus that difference plus
  the inter-trial delay; and the lines a run appends are the lines of these rows, for the
  trials 1 to \<open>N\<close>. The difference is the time of every attempt made, failed ones
  included, and of every wait between and after them, not the time of the successful call
  alone.
\<close>

theorem broadcast_ms_spans_retry_loop:
  "filter is_AppendFile (fst (trial env i c)) = [AppendFile (row_line (trial_row env i c))]
 \<and> snd (trial env i c)
      = c + trial_span env i c + (if SLEEP_MS env > 0 then pause_took env i else 0)
 \<and> (\<not> missing (CONTRACT env) \<and> \<not> missing (MNEMONIC env) \<and> fromMnemonic env = Inr address \<longrightarrow>
      filter is_AppendFile (fst (experiment_main env)) =
        map (\<lambda>j. AppendFile (row_line (trial_row env j c))) [1..<Suc (N env)])
 \<and> get_prop (trial_row env i c) (lit ''broadcast_ms'') = JStr (toFixed3 env (trial_span env i c))
 \<and> (broadcast env i 1 = Resolved r \<longrightarrow> trial_span env i c = broadcast_took env i 1)
 \<and> (broadcast env i 1 = Rejected e1 \<and> broadcast env i 2 = Resolved r \<longrightarrow>
      trial_span env i c = broadcast_took env i 1 + sleep_took env i 1 + broadcast_took env i 2)
 \<and> (broadcast env i 1 = Rejected e1 \<and> broadcast env i 2 = Rejected e2
      \<and> broadcast env i 3 = Resolved r \<longrightarrow>
      trial_span env i c = broadcast_took env i 1 + sleep_took env i 1
                         + broadcast_took env i 2 + sleep_took env i 2 + broadcast_took env i 3)
 \<and> (broadcast env i 1 = Rejected e1 \<and> broadcast env i 2 = Rejected e2
      \<and> broadcast env i 3 = Rejected e3 \<longrightarrow>
      trial_span env i c = broadcast_took env i 1 + sleep_took env i 1
                         + broadcast_took env i 2 + sleep_took env i 2
                         + broadcast_took env i 3 + sleep_took env i 3)"
proof (intro conjI impI)
  show "filter is_AppendFile (fst (trial env i c)) = [AppendFile (row_line (trial_row env i c))]"
    by (rule trial_appends_at)
  show "snd (trial env i c)
      = c + trial_span env i c + (if SLEEP_MS env > 0 then pause_took env i else 0)"
    by (rule trial_clock)
  show "filter is_AppendFile (fst (experiment_main env)) =
        map (\<lambda>j. AppendFile (row_line (trial_row env j c))) [1..<Suc (N env)]"
    if "\<not> missing (CONTRACT env) \<and> \<not> missing (MNEMONIC env) \<and> fromMnemonic env = Inr address"
    using that run_appends_at by blast
  show "get_prop (trial_row env i c) (lit ''broadcast_ms'') = JStr (toFixed3 env (trial_span env i c))"
    by (rule row_broadcast_ms)
qed (simp_all only: trial_span_def retry_unroll, simp_all)

text \<open>
  The theorem in the run of two trials where, in each, two attempts of 250 ms fail, waits
  of 1200 ms and 2400 ms follow them, and the third attempt of 250 ms succeeds: trial 1,
  entered at 0, ends at 4350000000 ns, and the two lines the run appends carry 4350.000.
\<close>

theorem broadcast_ms_spans_retry_loop_witness:
  "filter is_AppendFile (fst (trial env_sequence_race 1 0)) =
     [AppendFile (lit ''1,pi-exp-1700000000000-1,4350.000,ABC123,0,,,,,'' @ [LF])]
   \<and> snd (trial env_sequence_race 1 0) = 4350000000
   \<and> filter is_AppendFile (fst (experiment_main env_sequence_race)) =
     [AppendFile (lit ''1,pi-exp-1700000000000-1,4350.000,ABC123,0,,,,,'' @ [LF]),
      AppendFile (lit ''2,pi-exp-1700000000000-2,4350.000,ABC123,0,,,,,'' @ [LF])]
   \<and> get_prop (trial_row env_sequence_race 1 0) (lit ''broadcast_ms'') = JStr (lit ''4350.000'')"
proof -
  let ?e = "JError (lit ''Error'') (lit ''account sequence mismatch'')"
  let ?r = "JObj [(lit ''txHash'', JStr (lit ''ABC123'')), (lit ''code'', JNum 0)]"
  have b: "broadcast env_sequence_race 1 1 = Rejected ?e"
    "broadcast env_sequence_race 1 2 = Rejected ?e"
    "broadcast env_sequence_race 1 3 = Resolved ?r"
    by (simp_all add: env_sequence_race_def)
  have t: "broadcast_took env_sequence_race 1 1 + sleep_took env_sequence_race 1 1
         + broadcast_took env_sequence_race 1 2 + sleep_took env_sequence_race 1 2
         + broadcast_took env_sequence_race 1 3 = 4350000000"
    by (simp add: env_sequence_race_def)
  have f: "toFixed3 env_sequence_race = toFixed3_exact" "SLEEP_MS env_sequence_race = 0"
    by (simp_all add: env_sequence_race_def)
  note d = toFixed3_examples(1)
  note th = broadcast_ms_spans_retry_loop [where env = env_sequence_race and i = 1 and c = 0
        and ?e1.0 = ?e and ?e2.0 = ?e and r = ?r and address = "lit ''inj1sender''"]
  from th b have span: "trial_span env_sequence_race 1 0 =
           broadcast_took env_sequence_race 1 1 + sleep_took env_sequence_race 1 1
         + broadcast_took env_sequence_race 1 2 + sleep_took env_sequence_race 1 2
         + broadcast_took env_sequence_race 1 3"
    by blast
  from th have "filter is_AppendFile (fst (trial env_sequence_race 1 0)) =
      [AppendFile (row_line (trial_row env_sequence_race 1 0))]"
    by blast
  then have c1: "filter is_AppendFile (fst (trial env_sequence_race 1 0)) =
     [AppendFile (lit ''1,pi-exp-1700000000000-1,4350.000,ABC123,0,,,,,'' @ [LF])]"
    by (simp only: sequence_race_rows)
  from th have "snd (trial env_sequence_race 1 0) = 0 + trial_span env_sequence_race 1 0
      + (if SLEEP_MS env_sequence_race > 0 then pause_took env_sequence_race 1 else 0)"
    by blast
  then have c2: "snd (trial env_sequence_race 1 0) = 4350000000"
    by (simp only: span t f) simp
  from th env_sequence_race_ready(1,2,3)
  have "filter is_AppendFile (fst (experiment_main env_sequence_race)) =
        map (\<lambda>j. AppendFile (row_line (trial_row env_sequence_race j 0)))
            [1..<Suc (N env_sequence_race)]"
    by blast
  then have c3: "filter is_AppendFile (fst (experiment_main env_sequence_race)) =
     [AppendFile (lit ''1,pi-exp-1700000000000-1,4350.000,ABC123,0,,,,,'' @ [LF]),
      AppendFile (lit ''2,pi-exp-1700000000000-2,4350.000,ABC123,0,,,,,'' @ [LF])]"
    by (simp only: env_sequence_race_ready(4) upt_1_3 list.map sequence_race_rows)
  from th have "get_prop (trial_row env_sequence_race 1 0) (lit ''broadcast_ms'')
          = JStr (toFixed3 env_sequence_race (trial_span env_sequence_race 1 0))"
    by blast
  then have c4: "get_prop (trial_row env_sequence_race 1 0) (lit ''broadcast_ms'')
                   = JStr (lit ''4350.000'')"
    by (simp only: span t f d)
  from c1 c2 c3 c4 show ?thesis by blast
qed

section \<open>The header comes first\<close>








section \<open>Payload values\<close>

lemma undec_dec: "undec (dec n) = n"
proof (induction n rule: dec.induct)
  case (1 n)
  show ?case
  proof (cases "n < 10")
    case True
    then show ?thesis by (subst dec.simps) (simp add: undec_def)
  next
    case False
    with 1 have "undec (dec (n div 10)) = n div 10" by simp
    with False show ?thesis by (subst dec.simps) (simp add: undec_def)
  qed
qed

lemma dec_inj: "dec m = dec n \<Longrightarrow> m = n"
  by (metis undec_dec)

lemma after_last:
  assumes "xs @ a # ys = xs' @ a # ys'" and "a \<notin> set ys" and "a \<notin> set ys'"
  shows "ys = ys'"
proof -
  from assms(1) have "rev ys @ a # rev xs = rev ys' @ a # rev xs'"
    by (metis rev_append rev.simps(2) append_assoc append_Cons append_Nil)
  then have "takeWhile (\<lambda>y. y \<noteq> a) (rev ys @ a # rev xs) =
             takeWhile (\<lambda>y. y \<noteq> a) (rev ys' @ a # rev xs')" by simp
  then have "takeWhile (\<lambda>y. y \<noteq> a) (rev ys) = takeWhile (\<lambda>y. y \<noteq> a) (rev ys')"
    by (simp add: takeWhile_tail)
  moreover have "takeWhile (\<lambda>y. y \<noteq> a) (rev ys) = rev ys"
    and "takeWhile (\<lambda>y. y \<noteq> a) (rev ys') = rev ys'"
    using assms(2,3) by (auto simp: takeWhile_eq_all_conv)
  ultimately show ?thesis by simp
qed

lemma payload_value_inj:
  assumes "payload_value t i = payload_value t' j"
  shows "i = j"
proof -
  have "HYPHEN \<notin> set (dec i)" "HYPHEN \<notin> set (dec j)"
    using dec_digits [of HYPHEN i] dec_digits [of HYPHEN j] by auto
  moreover from assms
  have "(lit ''pi-exp-'' @ num_str t) @ HYPHEN # dec i = (lit ''pi-exp-'' @ num_str t') @ HYPHEN # dec j"
    by (simp add: payload_value_def)
  ultimately have "dec i = dec j" by (rule after_last [rotated 1])
  then show ?thesis by (rule dec_inj)
qed

lemma row_value:
  "get_prop (trial_row env i c) (lit ''value'') = JStr (payload_value (Date_now env i) i)"
  by (simp add: trial_row_def make_row_def split: prod.splits)

text \<open>
  C9. The values generated for two distinct trial indices are distinct strings, whatever
  the two readings of the clock; and the value recorded for trial \<open>i\<close> is that function
  of the reading of \<open>Date.now()\<close> and of \<open>i\<close>. The generation is the total function
  \<open>payload_value\<close>: it has no result other than the string and adds no event to the trial.
\<close>

theorem payload_values_distinct:
  "(i \<noteq> j \<longrightarrow> payload_value t i \<noteq> payload_value t' j)
   \<and> get_prop (trial_row env i c) (lit ''value'') = JStr (payload_value (Date_now env i) i)"
  using payload_value_inj row_value by blast

text \<open>The theorem at the trials 1 and 2 of a run that reads the same millisecond twice.\<close>

theorem payload_values_distinct_witness:
  "payload_value 1700000000000 1 \<noteq> payload_value 1700000000000 2"
  using payload_values_distinct
    [where i = 1 and j = 2 and t = 1700000000000 and t' = 1700000000000
       and env = env_timeout and c = 0]
  by simp


section \<open>Classification depends on the message only\<close>

lemma retry_second_event:
  "a \<le> 3 \<Longrightarrow> broadcast env i a = Rejected e \<Longrightarrow>
   fst (retry env i a s) ! 1 = Sleep (backoff_ms (classify (failure_text e)) a)"
  by (cases s) (simp add: retry_step)

text \<open>
  C8. The classification is a function of the text of the message alone: two caught
  values with the same text are classified alike and get the same delay for the same
  attempt number; and in the retry loop, in whatever environment, trial and state of the
  loop's variables, the wait that follows a failed attempt \<open>a\<close> is that delay.
\<close>

theorem classification_depends_on_message_only:
  "failure_text e = failure_text e' \<longrightarrow>
     classify (failure_text e) = classify (failure_text e')
   \<and> backoff_ms (classify (failure_text e)) a = backoff_ms (classify (failure_text e')) a
   \<and> (a \<le> 3 \<and> broadcast env i a = Rejected e \<and> broadcast env' i' a = Rejected e' \<longrightarrow>
        fst (retry env i a s) ! 1 = Sleep (backoff_ms (classify (failure_text e)) a)
      \<and> fst (retry env' i' a s') ! 1 = fst (retry env i a s) ! 1)"
proof (intro impI conjI)
  assume same: "failure_text e = failure_text e'"
  then show "classify (failure_text e) = classify (failure_text e')"
    and "backoff_ms (classify (failure_text e)) a = backoff_ms (classify (failure_text e')) a"
    by simp_all
  assume h: "a \<le> 3 \<and> broadcast env i a = Rejected e \<and> broadcast env' i' a = Rejected e'"
  then have one: "fst (retry env i a s) ! 1 = Sleep (backoff_ms (classify (failure_text e)) a)"
    and two: "fst (retry env' i' a s') ! 1 = Sleep (backoff_ms (classify (failure_text e')) a)"
    by (blast intro: retry_second_event)+
  from one show "fst (retry env i a s) ! 1 = Sleep (backoff_ms (classify (failure_text e)) a)" .
  from one two same show "fst (retry env' i' a s') ! 1 = fst (retry env i a s) ! 1" by simp
qed

text \<open>
  The theorem at an \<open>Error\<close> object and at a thrown string that carry the same message:
  both are sequence errors, and after a second attempt both wait 2400 ms.
\<close>

theorem classification_depends_on_message_only_witness:
  "classify (failure_text (JStr (lit ''account sequence mismatch''))) = TransientSequenceError
   \<and> backoff_ms (classify (failure_text (JStr (lit ''account sequence mismatch'')))) 2 = 2400"
proof -
  let ?e = "JError (lit ''Error'') (lit ''account sequence mismatch'')"
  let ?e' = "JStr (lit ''account sequence mismatch'')"
  have same: "failure_text ?e = failure_text ?e'"
    by (simp add: failure_text_def caught_message_def js_or_def js_and_def)
  have k: "classify (failure_text ?e) = TransientSequenceError"
    using classify_sequence_mismatch by (simp add: failure_text_Error)
  from classification_depends_on_message_only
         [where e = ?e and e' = ?e' and a = 2 and env = env_timeout and env' = env_timeout
            and i = 1 and i' = 1 and s = "(JNull, JStr [], 0)" and s' = "(JNull, JStr [], 0)"] same
  have "classify (failure_text ?e) = classify (failure_text ?e')"
    and "backoff_ms (classify (failure_text ?e)) 2 = backoff_ms (classify (failure_text ?e')) 2"
    by blast+
  with k show ?thesis by simp
qed



section \<open>The worker: failures and documents\<close>

lemma send_set_value_unconfigured:
  "missing (CONTRACT env) \<or> missing (MNEMONIC env) \<Longrightarrow>
   send_set_value env = \<lparr>stdout = [], exit_status = 1\<rparr>"
  by (simp add: send_set_value_def)

lemma send_set_value_configured:
  "\<not> missing (CONTRACT env) \<Longrightarrow> \<not> missing (MNEMONIC env) \<Longrightarrow>
   send_set_value env =
     (case send_set_value_main env of
        Inr out \<Rightarrow> \<lparr>stdout = [out], exit_status = 0\<rparr>
      | Inl e \<Rightarrow>
          \<lparr>stdout = [Failure (nullish_or (opt_prop e (lit ''message'')) (JStr (ToString e)))],
           exit_status = 1\<rparr>)"
  by (simp add: send_set_value_def)

lemma main_ok: "send_set_value_main env = Inr out \<Longrightarrow> ok out"
  by (auto simp: send_set_value_main_def split: sum.splits if_splits jsval.splits outcome.splits)

lemma main_empty:
  "trim (stdin env) = [] \<Longrightarrow>
   send_set_value_main env = Inl (JError (lit ''Error'') (lit ''stdin is empty (expected JSON)''))"
  by (simp add: send_set_value_main_def readStdin_def)

lemma main_malformed:
  "trim (stdin env) \<noteq> [] \<Longrightarrow> JSON_parse env (trim (stdin env)) = Inl e \<Longrightarrow>
   send_set_value_main env = Inl e"
  by (simp add: send_set_value_main_def readStdin_def)

text \<open>
  C2, amended. When its configuration is present, a worker whose input is empty, or is
  text that \<open>JSON.parse\<close> rejects, writes exactly one document \<open>{ok: false, error}\<close>
  carrying the message of the error and then exits with status 1: such input is a handled
  failure. The worker exits without any document exactly when \<open>CONTRACT\<close> or \<open>MNEMONIC\<close>
  is missing; a non-zero exit status that comes with a document comes with an
  \<open>{ok: false, ...}\<close> document, and the status is 0 exactly when the one document written
  has \<open>ok: true\<close>.
\<close>

theorem malformed_input_is_reported:
  "(\<not> missing (CONTRACT env) \<and> \<not> missing (MNEMONIC env) \<and> trim (stdin env) = [] \<longrightarrow>
      send_set_value env =
        \<lparr>stdout = [Failure (JStr (lit ''stdin is empty (expected JSON)''))], exit_status = 1\<rparr>)
 \<and> (\<not> missing (CONTRACT env) \<and> \<not> missing (MNEMONIC env) \<and> trim (stdin env) \<noteq> []
      \<and> JSON_parse env (trim (stdin env)) = Inl e \<longrightarrow>
      send_set_value env =
        \<lparr>stdout = [Failure (nullish_or (opt_prop e (lit ''message'')) (JStr (ToString e)))],
         exit_status = 1\<rparr>)
 \<and> (stdout (send_set_value env) = [] \<longleftrightarrow> missing (CONTRACT env) \<or> missing (MNEMONIC env))
 \<and> (exit_status (send_set_value env) \<noteq> 0 \<and> stdout (send_set_value env) \<noteq> [] \<longrightarrow>
      (\<exists>x. stdout (send_set_value env) = [Failure x]))
 \<and> (exit_status (send_set_value env) = 0 \<longleftrightarrow>
      (\<exists>d. stdout (send_set_value env) = [d] \<and> ok d))"
proof (cases "missing (CONTRACT env) \<or> missing (MNEMONIC env)")
  case True
  then show ?thesis by (auto simp: send_set_value_unconfigured)
next
  case False
  then have c: "\<not> missing (CONTRACT env)" "\<not> missing (MNEMONIC env)" by simp_all
  show ?thesis
  proof (cases "send_set_value_main env")
    case (Inl x)
    with c show ?thesis
      by (auto simp: send_set_value_configured main_empty main_malformed nullish_or_def opt_prop_def)
  next
    case (Inr out)
    with c main_ok [OF Inr] show ?thesis
      by (auto simp: send_set_value_configured main_empty main_malformed)
  qed
qed

lemma trim_oops: "trim (lit ''{oops'') = lit ''{oops''"
  by (simp add: trim_def is_space_def)

text \<open>The theorem at the malformed input \<open>{oops\<close>.\<close>

theorem malformed_input_is_reported_witness:
  "send_set_value worker_malformed =
     \<lparr>stdout = [Failure (JStr (lit ''Unexpected token o in JSON at position 1''))],
      exit_status = 1\<rparr>"
proof -
  let ?e = "JError (lit ''SyntaxError'') (lit ''Unexpected token o in JSON at position 1'')"
  have c: "\<not> missing (CONTRACT worker_malformed)" "\<not> missing (MNEMONIC worker_malformed)"
    by (simp_all add: worker_malformed_def worker_accepted_def missing_def)
  have s: "stdin worker_malformed = lit ''{oops''"
    by (simp add: worker_malformed_def)
  have t: "trim (stdin worker_malformed) \<noteq> []"
    by (simp only: s trim_oops) simp
  have p: "JSON_parse worker_malformed (trim (stdin worker_malformed)) = Inl ?e"
    by (simp only: s trim_oops) (simp add: worker_malformed_def worker_accepted_def example_JSON_parse_def)
  from malformed_input_is_reported [of worker_malformed ?e] c t p
  have "send_set_value worker_malformed =
        \<lparr>stdout = [Failure (nullish_or (opt_prop ?e (lit ''message'')) (JStr (ToString ?e)))],
         exit_status = 1\<rparr>"
    by blast
  then show ?thesis by (simp add: nullish_or_def opt_prop_def)
qed

text \<open>
  The claim as stated fails at the empty input: the worker writes a document before it
  exits.
\<close>

theorem empty_input_emits_a_document:
  "send_set_value worker_empty_stdin =
     \<lparr>stdout = [Failure (JStr (lit ''stdin is empty (expected JSON)''))], exit_status = 1\<rparr>"
proof -
  have c: "\<not> missing (CONTRACT worker_empty_stdin)" "\<not> missing (MNEMONIC worker_empty_stdin)"
    by (simp_all add: worker_empty_stdin_def worker_accepted_def missing_def)
  have t: "trim (stdin worker_empty_stdin) = []"
    by (simp add: worker_empty_stdin_def trim_def)
  show ?thesis
    by (simp add: send_set_value_configured [OF c] main_empty [OF t] nullish_or_def opt_prop_def)
qed


section \<open>The worker: the hash of a success\<close>

lemma js_or_empty:
  "js_or (js_or a b) (JStr []) = JStr [] \<longleftrightarrow> \<not> truthy a \<and> \<not> truthy b"
  by (cases a; cases b) (auto simp: js_or_def)

lemma main_Success:
  "send_set_value_main env = Inr d \<Longrightarrow>
   \<exists>res. submit env = Resolved res
      \<and> txhash d = js_or (js_or (get_prop res (lit ''txhash'')) (get_prop res (lit ''txHash'')))
                          (JStr [])"
  by (auto simp: send_set_value_main_def split: sum.splits if_splits jsval.splits outcome.splits)

text \<open>
  C3, amended. A document with \<open>ok: true\<close> is written only after the submission has
  resolved, and its \<open>txhash\<close> is the response's \<open>txhash\<close> when that is truthy, otherwise
  its \<open>txHash\<close> when that is truthy, otherwise the empty string: it is empty exactly when
  the response carries neither.
\<close>

theorem ok_document_txhash:
  "\<forall>d\<in>set (stdout (send_set_value env)). ok d \<longrightarrow>
     (\<exists>res. submit env = Resolved res
        \<and> txhash d = js_or (js_or (get_prop res (lit ''txhash'')) (get_prop res (lit ''txHash'')))
                            (JStr [])
        \<and> (txhash d = JStr [] \<longleftrightarrow>
             \<not> truthy (get_prop res (lit ''txhash'')) \<and> \<not> truthy (get_prop res (lit ''txHash''))))"
proof (intro ballI impI)
  fix d
  assume d: "d \<in> set (stdout (send_set_value env))" and k: "ok d"
  then have "send_set_value_main env = Inr d"
    by (cases "send_set_value_main env")
       (auto simp: send_set_value_def split: if_splits)
  from main_Success [OF this] obtain res where r: "submit env = Resolved res"
    "txhash d = js_or (js_or (get_prop res (lit ''txhash'')) (get_prop res (lit ''txHash''))) (JStr [])"
    by blast
  then show "\<exists>res. submit env = Resolved res
        \<and> txhash d = js_or (js_or (get_prop res (lit ''txhash'')) (get_prop res (lit ''txHash'')))
                            (JStr [])
        \<and> (txhash d = JStr [] \<longleftrightarrow>
             \<not> truthy (get_prop res (lit ''txhash'')) \<and> \<not> truthy (get_prop res (lit ''txHash'')))"
    using js_or_empty by metis
qed

lemma worker_accepted_fields:
  "CONTRACT worker_accepted = Some (lit ''inj1contract'')"
  "MNEMONIC worker_accepted = Some (lit ''test mnemonic'')"
  "fromMnemonic worker_accepted = Inr (lit ''inj1sender'')"
  "submit worker_accepted =
     Resolved (JObj [(lit ''txHash'', JStr (lit ''ABC123'')), (lit ''code'', JNum 0)])"
  "submit_took worker_accepted = 842100000"
  by (simp_all add: worker_accepted_def)

lemma worker_accepted_input:
  "readStdin worker_accepted = Inr (JObj [(lit ''value'', JStr (lit ''qr-0001''))])"
  by (simp add: readStdin_def worker_accepted_def trim_def is_space_def example_JSON_parse_def)

lemma worker_no_hash_fields:
  "CONTRACT worker_no_hash = Some (lit ''inj1contract'')"
  "MNEMONIC worker_no_hash = Some (lit ''test mnemonic'')"
  "fromMnemonic worker_no_hash = Inr (lit ''inj1sender'')"
  "submit worker_no_hash = Resolved (JObj [(lit ''code'', JNum 0)])"
  "submit_took worker_no_hash = 842100000"
  by (simp_all add: worker_no_hash_def worker_accepted_def)

lemma worker_no_hash_input:
  "readStdin worker_no_hash = Inr (JObj [(lit ''value'', JStr (lit ''qr-0001''))])"
  by (simp add: readStdin_def worker_no_hash_def worker_accepted_def trim_def is_space_def
        example_JSON_parse_def)

lemma accepted_main:
  "send_set_value_main worker_accepted =
     Inr (Success (JStr (lit ''ABC123'')) 842100000 JNull (JNum 0) JNull JNull JNull
            (lit ''inj1sender'') (lit ''inj1contract'') 7)"
  by (simp add: send_set_value_main_def worker_accepted_input worker_accepted_fields
        js_or_def nullish_or_def env_text_def)

lemma no_hash_main:
  "send_set_value_main worker_no_hash =
     Inr (Success (JStr []) 842100000 JNull (JNum 0) JNull JNull JNull
            (lit ''inj1sender'') (lit ''inj1contract'') 7)"
  by (simp add: send_set_value_main_def worker_no_hash_input worker_no_hash_fields
        js_or_def nullish_or_def env_text_def)

text \<open>The theorem at the request whose response carries the hash \<open>ABC123\<close>.\<close>

theorem ok_document_txhash_witness:
  "txhash (Success (JStr (lit ''ABC123'')) 842100000 JNull (JNum 0) JNull JNull JNull
            (lit ''inj1sender'') (lit ''inj1contract'') 7) = JStr (lit ''ABC123'')
   \<and> stdout (send_set_value worker_accepted) =
       [Success (JStr (lit ''ABC123'')) 842100000 JNull (JNum 0) JNull JNull JNull
            (lit ''inj1sender'') (lit ''inj1contract'') 7]"
proof -
  let ?d = "Success (JStr (lit ''ABC123'')) 842100000 JNull (JNum 0) JNull JNull JNull
            (lit ''inj1sender'') (lit ''inj1contract'') 7"
  have out: "stdout (send_set_value worker_accepted) = [?d]"
    by (simp add: send_set_value_def accepted_main worker_accepted_fields missing_def)
  note sub = worker_accepted_fields(4)
  from ok_document_txhash [of worker_accepted] out
  have "\<exists>res. submit worker_accepted = Resolved res
          \<and> txhash ?d = js_or (js_or (get_prop res (lit ''txhash'')) (get_prop res (lit ''txHash'')))
                              (JStr [])"
    by auto
  with sub have "txhash ?d = JStr (lit ''ABC123'')" by (simp add: js_or_def)
  with out show ?thesis by simp
qed

text \<open>
  The claim as stated fails at a response without a hash: the worker writes \<open>ok: true\<close>
  with the empty \<open>txhash\<close> and exits with status 0.
\<close>

theorem ok_document_with_empty_txhash:
  "send_set_value worker_no_hash =
     \<lparr>stdout = [Success (JStr []) 842100000 JNull (JNum 0) JNull JNull JNull
                  (lit ''inj1sender'') (lit ''inj1contract'') 7],
      exit_status = 0\<rparr>
   \<and> ok (Success (JStr []) 842100000 JNull (JNum 0) JNull JNull JNull
            (lit ''inj1sender'') (lit ''inj1contract'') 7)
   \<and> txhash (Success (JStr []) 842100000 JNull (JNum 0) JNull JNull JNull
            (lit ''inj1sender'') (lit ''inj1contract'') 7) = JStr []"
  by (simp add: send_set_value_def no_hash_main worker_no_hash_fields missing_def)

section \<open>Polling for confirmation\<close>

lemma poll_pending:
  "i < 45 \<Longrightarrow> pending env i \<Longrightarrow>
   poll env i = (waiting i @ fst (poll env (Suc i)), snd (poll env (Suc i)))"
  by (subst poll.simps) (auto simp: pending_def waiting_def split: outcome.splits prod.splits)

lemma poll_confirmed:
  "i < 45 \<Longrightarrow> queryValue env i = Resolved v \<Longrightarrow> opt_prop v (lit ''value'') = JStr (newValue env) \<Longrightarrow>
   poll env i = ([Query i, ConsoleLog (lit ''CONFIRMED:'')], Confirmed)"
  by (subst poll.simps) simp

lemma poll_rejected:
  "i < 45 \<Longrightarrow> queryValue env i = Rejected e \<Longrightarrow> poll env i = ([Query i], Threw e)"
  by (subst poll.simps) simp

lemma poll_exhausted:
  "45 \<le> i \<Longrightarrow>
   poll env i = ([ConsoleLog (lit ''Not confirmed yet. Run: node query.js'')], NotConfirmed)"
  by (subst poll.simps) simp

lemma poll_through:
  assumes "i \<le> k" and "k \<le> 45" and "\<forall>j. i \<le> j \<and> j < k \<longrightarrow> pending env j"
  shows "poll env i = (concat (map waiting [i..<k]) @ fst (poll env k), snd (poll env k))"
  using assms
proof (induction k rule: dec_induct)
  case base
  show ?case by simp
next
  case (step n)
  then have "poll env i = (concat (map waiting [i..<n]) @ fst (poll env n), snd (poll env n))"
    by simp
  moreover from step have "poll env n = (waiting n @ fst (poll env (Suc n)), snd (poll env (Suc n)))"
    by (intro poll_pending) simp_all
  ultimately show ?case using step.hyps by simp
qed

lemma poll_queries: "length (filter is_Query (fst (poll env i))) \<le> 45 - i"
proof (induction env i rule: poll.induct)
  case (1 env i)
  show ?case
  proof (cases "i < 45")
    case False
    then show ?thesis by (simp add: poll_exhausted)
  next
    case True
    show ?thesis
    proof (cases "queryValue env i")
      case (Rejected e)
      with True show ?thesis by (simp add: poll_rejected)
    next
      case (Resolved v)
      show ?thesis
      proof (cases "opt_prop v (lit ''value'') = JStr (newValue env)")
        case m: True
        with True Resolved show ?thesis by (simp add: poll_confirmed)
      next
        case m: False
        with Resolved have "pending env i" by (simp add: pending_def)
        with True "1.IH" [OF True Resolved m] show ?thesis
          by (simp add: poll_pending waiting_def)
      qed
    qed
  qed
qed

lemma poll_reads_only: "e \<in> set (fst (poll env i)) \<Longrightarrow> \<not> is_Broadcast e"
proof (induction env i rule: poll.induct)
  case (1 env i)
  show ?case
  proof (cases "i < 45")
    case False
    with "1.prems" show ?thesis by (auto simp: poll_exhausted)
  next
    case True
    show ?thesis
    proof (cases "queryValue env i")
      case (Rejected x)
      with True "1.prems" show ?thesis by (auto simp: poll_rejected)
    next
      case (Resolved v)
      show ?thesis
      proof (cases "opt_prop v (lit ''value'') = JStr (newValue env)")
        case m: True
        with True Resolved "1.prems" show ?thesis by (auto simp: poll_confirmed)
      next
        case m: False
        with Resolved have "pending env i" by (simp add: pending_def)
        with True "1.IH" [OF True Resolved m] "1.prems" show ?thesis
          by (auto simp: poll_pending waiting_def)
      qed
    qed
  qed
qed

text \<open>
  C7. The polling loop issues at most 45 queries and nothing but queries, console lines
  and waits: no submission. When the \<open>k\<close>-th query (counted from 0, \<open>k < 45\<close>) is the
  first whose response carries the expected value, every query before it is followed by
  a wait of 2000 ms and the loop ends confirmed right after the \<open>k\<close>-th response. When none
  of the 45 responses carries the expected value, the loop ends not confirmed after 45
  queries, each followed by a wait of 2000 ms, and throws nothing.
\<close>

theorem poll_is_bounded_and_read_only:
  "length (filter is_Query (fst (poll env 0))) \<le> 45
 \<and> (\<forall>e\<in>set (fst (poll env 0)). \<not> is_Broadcast e)
 \<and> (k < 45 \<and> (\<forall>j<k. pending env j) \<and> queryValue env k = Resolved v
      \<and> opt_prop v (lit ''value'') = JStr (newValue env) \<longrightarrow>
      poll env 0 =
        (concat (map (\<lambda>j. [Query j, ConsoleLog (lit ''waiting... current:''), Sleep 2000]) [0..<k])
         @ [Query k, ConsoleLog (lit ''CONFIRMED:'')], Confirmed))
 \<and> ((\<forall>j<45. pending env j) \<longrightarrow>
      poll env 0 =
        (concat (map (\<lambda>j. [Query j, ConsoleLog (lit ''waiting... current:''), Sleep 2000]) [0..<45])
         @ [ConsoleLog (lit ''Not confirmed yet. Run: node query.js'')], NotConfirmed))"
proof (intro conjI impI ballI)
  show "length (filter is_Query (fst (poll env 0))) \<le> 45"
    using poll_queries [of env 0] by simp
  show "\<not> is_Broadcast e" if "e \<in> set (fst (poll env 0))" for e
    using that by (rule poll_reads_only)
  have w: "waiting = (\<lambda>j. [Query j, ConsoleLog (lit ''waiting... current:''), Sleep 2000])"
    by (rule ext) (simp add: waiting_def)
  show "poll env 0 =
        (concat (map (\<lambda>j. [Query j, ConsoleLog (lit ''waiting... current:''), Sleep 2000]) [0..<k])
         @ [Query k, ConsoleLog (lit ''CONFIRMED:'')], Confirmed)"
    if h: "k < 45 \<and> (\<forall>j<k. pending env j) \<and> queryValue env k = Resolved v
      \<and> opt_prop v (lit ''value'') = JStr (newValue env)"
  proof -
    from h have "poll env 0 = (concat (map waiting [0..<k]) @ fst (poll env k), snd (poll env k))"
      by (intro poll_through) simp_all
    moreover have "poll env k = ([Query k, ConsoleLog (lit ''CONFIRMED:'')], Confirmed)"
      using h poll_confirmed [of k env v] by simp
    ultimately show ?thesis by (simp add: w)
  qed
  show "poll env 0 =
        (concat (map (\<lambda>j. [Query j, ConsoleLog (lit ''waiting... current:''), Sleep 2000]) [0..<45])
         @ [ConsoleLog (lit ''Not confirmed yet. Run: node query.js'')], NotConfirmed)"
    if h: "\<forall>j<45. pending env j"
  proof -
    from h have "poll env 0 = (concat (map waiting [0..<45]) @ fst (poll env 45), snd (poll env 45))"
      by (intro poll_through) simp_all
    then show ?thesis by (simp add: poll_exhausted w)
  qed
qed

lemma confirm_third_queries:
  "pending confirm_third 0" "pending confirm_third 1"
  "queryValue confirm_third 2 = Resolved (JObj [(lit ''value'', JStr (lit ''hello-from-pi-1700000000000''))])"
  "newValue confirm_third = lit ''hello-from-pi-1700000000000''"
  by (simp_all add: pending_def confirm_third_def opt_prop_def newValue_def num_str_def dec.simps)

lemma confirm_never_pending: "pending confirm_never j"
  by (simp add: pending_def confirm_never_def confirm_third_def opt_prop_def newValue_def
        num_str_def dec.simps)

text \<open>
  The theorem where the third response is the first to carry the new value, and where no
  response ever carries it.
\<close>

theorem poll_is_bounded_and_read_only_witness:
  "poll confirm_third 0 =
     ([Query 0, ConsoleLog (lit ''waiting... current:''), Sleep 2000,
       Query 1, ConsoleLog (lit ''waiting... current:''), Sleep 2000,
       Query 2, ConsoleLog (lit ''CONFIRMED:'')], Confirmed)
   \<and> poll confirm_never 0 =
     (concat (map (\<lambda>j. [Query j, ConsoleLog (lit ''waiting... current:''), Sleep 2000]) [0..<45])
      @ [ConsoleLog (lit ''Not confirmed yet. Run: node query.js'')], NotConfirmed)"
proof -
  let ?v = "JObj [(lit ''value'', JStr (lit ''hello-from-pi-1700000000000''))]"
  have p: "\<forall>j<2. pending confirm_third j"
    using confirm_third_queries(1,2) by (auto simp: less_2_cases_iff)
  have m: "opt_prop ?v (lit ''value'') = JStr (newValue confirm_third)"
    by (simp add: confirm_third_queries(4) opt_prop_def)
  have u: "[0..<2] = [0, 1]" by (simp add: upt_conv_Cons)
  from poll_is_bounded_and_read_only [of confirm_third 2 ?v] p m confirm_third_queries(3)
  have "poll confirm_third 0 =
        (concat (map (\<lambda>j. [Query j, ConsoleLog (lit ''waiting... current:''), Sleep 2000]) [0..<2])
         @ [Query 2, ConsoleLog (lit ''CONFIRMED:'')], Confirmed)"
    by simp
  then have one: "poll confirm_third 0 =
     ([Query 0, ConsoleLog (lit ''waiting... current:''), Sleep 2000,
       Query 1, ConsoleLog (lit ''waiting... current:''), Sleep 2000,
       Query 2, ConsoleLog (lit ''CONFIRMED:'')], Confirmed)"
    by (simp only: u) simp
  from poll_is_bounded_and_read_only [of confirm_never 0 JNull] confirm_never_pending
  have two: "poll confirm_never 0 =
     (concat (map (\<lambda>j. [Query j, ConsoleLog (lit ''waiting... current:''), Sleep 2000]) [0..<45])
      @ [ConsoleLog (lit ''Not confirmed yet. Run: node query.js'')], NotConfirmed)"
    by blast
  from one two show ?thesis by (rule conjI)
qed

end
